theory Spec2Isabelle
  imports Main "HOL-Library.Word" "HOL-Library.Multiset"
begin

unbundle bit_operations_syntax

chapter \<open>The program: a shallow embedding of rsym.c\<close>

text \<open>
  The development follows \<^verbatim>\<open>sdk/tools/rsym/rsym.c\<close>: the string-intern table, the
  comparator of line-table rows, the STABS and COFF decoders, the merger and the front of
  \<^verbatim>\<open>main\<close>. Every C function becomes a HOL function of the same name; a C loop becomes a
  recursive function; a failing return (\<^verbatim>\<open>return 1\<close>) becomes a value \<open>Inl err\<close>.

  Conventions of the embedding.
  \<^item> \<^verbatim>\<open>ULONG\<close> values are \<open>32 word\<close>: arithmetic wraps as in C. \<^verbatim>\<open>ULONG_PTR\<close> is
    pointer-sized on the host compiler; where its width can matter (the STABS decoder) it
    is a word of an open width \<open>'p\<close>. Array indices and byte positions inside buffers
    are \<open>nat\<close>.
  \<^item> A byte buffer is a \<open>char list\<close>; a C string inside a buffer is read up to its NUL.
  \<^item> An access outside the array or buffer it is made on has no defined result in C. The
    embedding makes it the explicit outcome \<open>Inl OutOfBounds\<close>, so that "this read is in
    range" is a statement about the model.
  \<^item> \<^verbatim>\<open>malloc\<close> is assumed to succeed; the out-of-memory returns are not modelled.
  \<^item> \<^verbatim>\<open>qsort\<close> is the C library's and is a parameter of every function that calls it.
\<close>

section \<open>Errors and C strings\<close>

datatype rsym_error = NameTooLong | MalformedImage | OutOfBounds

definition NUL :: char where
  "NUL = CHR 0x00"

text \<open>
  \<open>cstr_at mem p\<close> is the C string that starts at position \<open>p\<close> of the buffer \<open>mem\<close>:
  the bytes before the first NUL. When there is no NUL at or after \<open>p\<close> inside the buffer
  (in particular when \<open>p\<close> is past its end), reading the string leaves the buffer.
\<close>

definition cstr_at :: "char list \<Rightarrow> nat \<Rightarrow> char list option" where
  "cstr_at mem p =
     (if NUL \<in> set (drop p mem) then Some (takeWhile (\<lambda>c. c \<noteq> NUL) (drop p mem)) else None)"

definition nth_opt :: "'a list \<Rightarrow> nat \<Rightarrow> 'a option" where
  "nth_opt xs i = (if i < length xs then Some (xs ! i) else None)"

section \<open>The string-intern table\<close>

text \<open>
  \<^verbatim>\<open>ComputeDJBHash\<close> (lines 50-62). The accumulator is an \<^verbatim>\<open>unsigned int\<close>; \<^verbatim>\<open>name[i]\<close> is a
  plain \<^verbatim>\<open>char\<close>, which the host compilers of the tool (gcc on x86) treat as signed, so a
  byte above 127 is sign-extended before it is added. The loop stops at the NUL.
\<close>

definition char_to_uint :: "char \<Rightarrow> 32 word" where
  "char_to_uint c = (if (of_char c :: nat) < 128 then of_char c else of_char c - 256)"

fun djb_loop :: "32 word \<Rightarrow> char list \<Rightarrow> 32 word" where
  "djb_loop val [] = val"
| "djb_loop val (c # name) =
     (if c = NUL then val else djb_loop (33 * val + char_to_uint c) name)"

definition ComputeDJBHash :: "char list \<Rightarrow> 32 word" where
  "ComputeDJBHash name = djb_loop 5381 name"

text \<open>
  \<^verbatim>\<open>struct StringEntry\<close> and \<^verbatim>\<open>struct StringHashTable\<close> (lines 36-47). A bucket chain is the
  list of its entries, head first. \<^verbatim>\<open>String\<close> is a pointer into the blob: it is kept as the
  position it points at, and the string is read through the blob, as \<^verbatim>\<open>strcmp\<close> does.
\<close>

record StringEntry =
  Offset :: "32 word"
  String :: nat

record StringHashTable =
  TableSize :: "32 word"
  Table :: "nat \<Rightarrow> StringEntry list"

text \<open>\<^verbatim>\<open>AddStringToHash\<close> (lines 64-75): the new entry becomes the head of its chain.\<close>

definition AddStringToHash :: "StringHashTable \<Rightarrow> nat \<Rightarrow> 32 word \<Rightarrow> nat \<Rightarrow> StringHashTable" where
  "AddStringToHash StringTable hash Offs StringPtr =
     StringTable\<lparr>Table := (Table StringTable)
        (hash := \<lparr>Offset = Offs, String = StringPtr\<rparr> # Table StringTable hash)\<rparr>"

text \<open>The bucket index \<^verbatim>\<open>ComputeDJBHash(s) % StringTable->TableSize\<close>.\<close>

definition bucket_of :: "StringHashTable \<Rightarrow> char list \<Rightarrow> nat" where
  "bucket_of StringTable name = unat (ComputeDJBHash name mod TableSize StringTable)"

text \<open>
  \<^verbatim>\<open>StringHashTableInit\<close> (lines 77-94): every string already in the blob is entered, at
  its position. \<open>Start\<close> walks the blob from string to string.
\<close>

function StringHashTableInit_loop ::
  "char list \<Rightarrow> nat \<Rightarrow> StringHashTable \<Rightarrow> rsym_error + StringHashTable" where
  "StringHashTableInit_loop StringsBase Start StringTable =
     (if Start < length StringsBase then
        (case cstr_at StringsBase Start of
           None \<Rightarrow> Inl OutOfBounds
         | Some s \<Rightarrow>
             StringHashTableInit_loop StringsBase (Start + length s + 1)
               (AddStringToHash StringTable (bucket_of StringTable s) (of_nat Start) Start))
      else Inr StringTable)"
  by pat_completeness auto
termination
  by (relation "measure (\<lambda>(b, s, t). length b - s)") auto

definition StringHashTableInit :: "char list \<Rightarrow> rsym_error + StringHashTable" where
  "StringHashTableInit StringsBase =
     StringHashTableInit_loop StringsBase 0 \<lparr>TableSize = 1024, Table = (\<lambda>_. [])\<rparr>"

text \<open>
  \<^verbatim>\<open>FindOrAddString\<close> (lines 201-228). \<open>find_entry\<close> is the \<^verbatim>\<open>while\<close> loop over the chain.
  The blob \<open>StringsBase\<close> holds the \<^verbatim>\<open>*StringsLength\<close> bytes in use, so \<^verbatim>\<open>End\<close> is its length;
  \<open>StringToFind\<close> is the bytes of the C string, without its NUL, which \<^verbatim>\<open>strcpy\<close> adds.
  The function returns the offset, the table and the blob.
\<close>

fun find_entry :: "char list \<Rightarrow> char list \<Rightarrow> StringEntry list \<Rightarrow> StringEntry option" where
  "find_entry StringsBase StringToFind [] = None"
| "find_entry StringsBase StringToFind (entry # Next) =
     (if cstr_at StringsBase (String entry) = Some StringToFind then Some entry
      else find_entry StringsBase StringToFind Next)"

definition FindOrAddString ::
  "StringHashTable \<Rightarrow> char list \<Rightarrow> char list \<Rightarrow> 32 word \<times> StringHashTable \<times> char list" where
  "FindOrAddString StringTable StringToFind StringsBase =
     (let hash = bucket_of StringTable StringToFind in
      case find_entry StringsBase StringToFind (Table StringTable hash) of
        Some entry \<Rightarrow> (Offset entry, StringTable, StringsBase)
      | None \<Rightarrow>
          (let End = length StringsBase in
           (of_nat End,
            AddStringToHash StringTable hash (of_nat End) End,
            StringsBase @ StringToFind @ [NUL])))"

text \<open>
  The vocabulary of the intern contract. \<open>recorded\<close>: the table holds an entry with this
  offset whose string is \<open>s\<close>. \<open>table_ok\<close>: every entry sits in the bucket of its string's
  hash, and no string is recorded at two offsets. The table built from the seeded blob
  satisfies it and \<open>FindOrAddString\<close> keeps it.
\<close>

definition recorded :: "StringHashTable \<Rightarrow> char list \<Rightarrow> 32 word \<Rightarrow> char list \<Rightarrow> bool" where
  "recorded StringTable StringsBase off s \<longleftrightarrow>
     (\<exists>h e. e \<in> set (Table StringTable h) \<and> Offset e = off
            \<and> cstr_at StringsBase (String e) = Some s)"

definition table_ok :: "StringHashTable \<Rightarrow> char list \<Rightarrow> bool" where
  "table_ok StringTable StringsBase \<longleftrightarrow>
     (\<forall>h e. e \<in> set (Table StringTable h) \<longrightarrow>
        (\<exists>s. cstr_at StringsBase (String e) = Some s \<and> bucket_of StringTable s = h))
     \<and> (\<forall>h e h' e'. e \<in> set (Table StringTable h) \<longrightarrow> e' \<in> set (Table StringTable h') \<longrightarrow>
          cstr_at StringsBase (String e) = cstr_at StringsBase (String e') \<longrightarrow>
          Offset e = Offset e')"

text \<open>The table that \<open>StringHashTableInit\<close> builds from the seeded blob (one NUL).\<close>

definition seeded_table :: StringHashTable where
  "seeded_table =
     \<lparr>TableSize = 1024, Table = (\<lambda>_. [])(261 := [\<lparr>Offset = 0, String = 0\<rparr>])\<rparr>"

section \<open>The line-table row and its comparator\<close>

text \<open>
  Modelled from the spec: \<^verbatim>\<open>ROSSYM_ENTRY\<close>, the universal row of the symbol table, is
  declared in \<^verbatim>\<open>rsym.h\<close>, which is not among the sources. The spec gives the row as the
  four 32-bit words \<^verbatim>\<open>{u32 address; u32 file_off; u32 func_off; u32 line}\<close>; the field
  names are the ones the source uses.
\<close>

record ROSSYM_ENTRY =
  Address :: "32 word"
  FileOffset :: "32 word"
  FunctionOffset :: "32 word"
  SourceLine :: "32 word"

text \<open>The result of \<^verbatim>\<open>memset(p, 0, sizeof(ROSSYM_ENTRY))\<close>.\<close>

definition zero_entry :: ROSSYM_ENTRY where
  "zero_entry = \<lparr>Address = 0, FileOffset = 0, FunctionOffset = 0, SourceLine = 0\<rparr>"

text \<open>
  \<^verbatim>\<open>CompareSymEntry\<close> (lines 113-137): the four tests in the order of the source.
\<close>

definition CompareSymEntry :: "ROSSYM_ENTRY \<Rightarrow> ROSSYM_ENTRY \<Rightarrow> int" where
  "CompareSymEntry SymEntry1 SymEntry2 =
     (if Address SymEntry1 < Address SymEntry2 then - 1
      else if Address SymEntry2 < Address SymEntry1 then 1
      else if SourceLine SymEntry2 = 0 then - 1
      else if SourceLine SymEntry1 = 0 then 1
      else 0)"

text \<open>
  \<^verbatim>\<open>qsort\<close> belongs to the C library, not to the program, so the functions that call it
  take it as a parameter. What the theorems assume of it is \<open>qsort_contract\<close>: called with
  \<open>CompareSymEntry\<close> it returns a rearrangement of its input in which no row stands before
  a row that the comparator ranks strictly below it.
\<close>

type_synonym qsort_fn =
  "(ROSSYM_ENTRY \<Rightarrow> ROSSYM_ENTRY \<Rightarrow> int) \<Rightarrow> ROSSYM_ENTRY list \<Rightarrow> ROSSYM_ENTRY list"

definition qsort_contract :: "qsort_fn \<Rightarrow> bool" where
  "qsort_contract qsort \<longleftrightarrow>
     (\<forall>xs. mset (qsort CompareSymEntry xs) = mset xs
         \<and> sorted_wrt (\<lambda>a b. CompareSymEntry a b \<le> 0) (qsort CompareSymEntry xs))"

text \<open>
  An executable sort that meets the contract, used wherever a run of the program is
  evaluated: insertion from the right, a row going in front of the first row it does not
  compare greater than.
\<close>

fun insert_by :: "('a \<Rightarrow> 'a \<Rightarrow> int) \<Rightarrow> 'a \<Rightarrow> 'a list \<Rightarrow> 'a list" where
  "insert_by cmp x [] = [x]"
| "insert_by cmp x (y # ys) = (if cmp x y \<le> 0 then x # y # ys else y # insert_by cmp x ys)"

definition insertion_qsort :: "('a \<Rightarrow> 'a \<Rightarrow> int) \<Rightarrow> 'a list \<Rightarrow> 'a list" where
  "insertion_qsort cmp xs = foldr (insert_by cmp) xs []"

text \<open>
  The orderings of a table: ascending addresses; among the rows of one address, the rows
  with line 0 before the others (\<open>line0_first\<close>, the tie-break the specification
  states) or after them (\<open>line0_last\<close>).
\<close>

definition address_ascending :: "ROSSYM_ENTRY list \<Rightarrow> bool" where
  "address_ascending rows \<longleftrightarrow> sorted_wrt (\<lambda>a b. Address a \<le> Address b) rows"

definition line0_first :: "ROSSYM_ENTRY list \<Rightarrow> bool" where
  "line0_first rows \<longleftrightarrow>
     sorted_wrt (\<lambda>a b. Address a = Address b \<longrightarrow> \<not> (SourceLine a \<noteq> 0 \<and> SourceLine b = 0)) rows"

definition line0_last :: "ROSSYM_ENTRY list \<Rightarrow> bool" where
  "line0_last rows \<longleftrightarrow>
     sorted_wrt (\<lambda>a b. Address a = Address b \<longrightarrow> \<not> (SourceLine a = 0 \<and> SourceLine b \<noteq> 0)) rows"

section \<open>The merger\<close>

text \<open>
  \<^verbatim>\<open>MergeStabsAndCoffs\<close> (lines 715-798). The two input arrays are lists; their counts
  \<^verbatim>\<open>StabSymbolsCount\<close> and \<^verbatim>\<open>CoffSymbolsCount\<close> are the lengths.

  \<open>fold_row\<close> is the body of the inner \<^verbatim>\<open>for\<close> loop (lines 748-759): each field of the
  merged row that is still 0 takes the value of the stab row. \<open>collapse_loop\<close> is that
  loop (lines 744-760); it returns the final \<open>j\<close> and the merged row.
\<close>

definition fold_row :: "ROSSYM_ENTRY \<Rightarrow> ROSSYM_ENTRY \<Rightarrow> ROSSYM_ENTRY" where
  "fold_row M S =
     (let M1 = (if FileOffset S \<noteq> 0 \<and> FileOffset M = 0
                then M\<lparr>FileOffset := FileOffset S\<rparr> else M);
          M2 = (if FunctionOffset S \<noteq> 0 \<and> FunctionOffset M1 = 0
                then M1\<lparr>FunctionOffset := FunctionOffset S\<rparr> else M1)
      in if SourceLine S \<noteq> 0 \<and> SourceLine M2 = 0
         then M2\<lparr>SourceLine := SourceLine S\<rparr> else M2)"

function collapse_loop ::
  "ROSSYM_ENTRY list \<Rightarrow> nat \<Rightarrow> nat \<Rightarrow> ROSSYM_ENTRY \<Rightarrow> nat \<times> ROSSYM_ENTRY" where
  "collapse_loop StabSymbols StabIndex j M =
     (if j < length StabSymbols \<and> Address (StabSymbols ! j) = Address (StabSymbols ! StabIndex)
      then collapse_loop StabSymbols StabIndex (j + 1) (fold_row M (StabSymbols ! j))
      else (j, M))"
  by pat_completeness auto
termination
  by (relation "measure (\<lambda>(S, i, j, M). length S - j)") auto

declare collapse_loop.simps [simp del]

text \<open>
  The advance loop (lines 763-767). The guard tests \<^verbatim>\<open>CoffIndex < CoffSymbolsCount\<close> and
  the body of the condition reads \<^verbatim>\<open>CoffSymbols[CoffIndex + 1]\<close>: the read is made through
  \<open>nth_opt\<close>, and a read outside the vector is \<open>Inl OutOfBounds\<close>.
\<close>

function coff_advance :: "ROSSYM_ENTRY list \<Rightarrow> nat \<Rightarrow> 32 word \<Rightarrow> rsym_error + nat" where
  "coff_advance CoffSymbols CoffIndex a =
     (if CoffIndex < length CoffSymbols then
        (case nth_opt CoffSymbols (CoffIndex + 1) of
           None \<Rightarrow> Inl OutOfBounds
         | Some C \<Rightarrow> if Address C \<le> a then coff_advance CoffSymbols (CoffIndex + 1) a
                     else Inr CoffIndex)
      else Inr CoffIndex)"
  by pat_completeness auto
termination
  by (relation "measure (\<lambda>(C, i, a). length C - i)") auto

declare coff_advance.simps [simp del]

text \<open>
  The override (lines 769-776): the merged row takes the function name of the coff row
  and the coff row loses its name offsets.
\<close>

definition coff_override ::
  "ROSSYM_ENTRY list \<Rightarrow> nat \<Rightarrow> 32 word \<Rightarrow> ROSSYM_ENTRY
     \<Rightarrow> rsym_error + ROSSYM_ENTRY \<times> ROSSYM_ENTRY list" where
  "coff_override Coffs ci FunctionStart M =
     (if 0 < length Coffs then
        (case nth_opt Coffs ci of
           None \<Rightarrow> Inl OutOfBounds
         | Some C \<Rightarrow>
             if Address C < Address M \<and> FunctionStart < Address C \<and> FunctionOffset C \<noteq> 0
             then Inr (M\<lparr>FunctionOffset := FunctionOffset C\<rparr>,
                       Coffs[ci := C\<lparr>FileOffset := 0, FunctionOffset := 0\<rparr>])
             else Inr (M, Coffs))
      else Inr (M, Coffs))"

text \<open>
  The variables that live across the iterations of the outer loop. \<open>merge_step\<close> is one
  iteration (lines 743-782); it returns the next \<open>StabIndex\<close>, which is the \<open>j\<close> of the
  collapse loop (\<^verbatim>\<open>StabIndex = j - 1\<close>, then the loop's \<^verbatim>\<open>StabIndex++\<close>).
  \<^verbatim>\<open>StabFunctionStartAddress\<close> is declared \<^verbatim>\<open>ULONG_PTR\<close>, but it only ever holds 0 or the
  32-bit address of a row and is only compared with such addresses, so whatever the
  width of \<^verbatim>\<open>ULONG_PTR\<close> its value and the comparisons are those of the 32-bit word.
\<close>

record merge_state =
  MergedSymbols :: "ROSSYM_ENTRY list"
  CoffSymbols :: "ROSSYM_ENTRY list"
  CoffIndex :: nat
  StabFunctionStartAddress :: "32 word"
  StabFunctionStringOffset :: "32 word"

definition merge_step ::
  "ROSSYM_ENTRY list \<Rightarrow> nat \<Rightarrow> merge_state \<Rightarrow> rsym_error + nat \<times> merge_state" where
  "merge_step StabSymbols StabIndex st =
     (case collapse_loop StabSymbols StabIndex (StabIndex + 1) (StabSymbols ! StabIndex) of
        (j, M) \<Rightarrow>
          (case coff_advance (CoffSymbols st) (CoffIndex st) (Address M) of
             Inl err \<Rightarrow> Inl err
           | Inr ci \<Rightarrow>
               (case coff_override (CoffSymbols st) ci (StabFunctionStartAddress st) M of
                  Inl err \<Rightarrow> Inl err
                | Inr (M', Coffs) \<Rightarrow>
                    Inr (j, \<lparr>MergedSymbols = MergedSymbols st @ [M'],
                             CoffSymbols = Coffs,
                             CoffIndex = ci,
                             StabFunctionStartAddress =
                               (if StabFunctionStringOffset st \<noteq> FunctionOffset M then Address M'
                                else StabFunctionStartAddress st),
                             StabFunctionStringOffset = FunctionOffset M\<rparr>))))"

lemma collapse_loop_ge: "collapse_loop S i j M = (j', M') \<Longrightarrow> j \<le> j'"
proof (induction S i j M rule: collapse_loop.induct)
  case (1 S i j M)
  then show ?case
    by (cases "j < length S \<and> Address (S ! j) = Address (S ! i)")
       (auto simp: collapse_loop.simps [of S i j M])
qed

lemma merge_step_advances: "merge_step S i st = Inr (j, st') \<Longrightarrow> i < j"
  using collapse_loop_ge [of S i "i + 1" "S ! i"]
  by (auto simp: merge_step_def split: prod.splits sum.splits)

function merge_loop ::
  "ROSSYM_ENTRY list \<Rightarrow> nat \<Rightarrow> merge_state \<Rightarrow> rsym_error + merge_state" where
  "merge_loop StabSymbols StabIndex st =
     (if StabIndex < length StabSymbols then
        (case merge_step StabSymbols StabIndex st of
           Inl err \<Rightarrow> Inl err
         | Inr (j, st') \<Rightarrow> merge_loop StabSymbols j st')
      else Inr st)"
  by pat_completeness auto
termination
proof (relation "measure (\<lambda>(S, i, st). length S - i)")
  show "wf (measure (\<lambda>(S, i, st). length S - i))" by simp
next
  fix StabSymbols :: "ROSSYM_ENTRY list" and StabIndex st x2 x y
  assume "StabIndex < length StabSymbols" "merge_step StabSymbols StabIndex st = Inr x2"
    "(x, y) = x2"
  then show "((StabSymbols, x, y), StabSymbols, StabIndex, st)
               \<in> measure (\<lambda>(S, i, st). length S - i)"
    using merge_step_advances [of StabSymbols StabIndex st x y] by auto
qed

declare merge_loop.simps [simp del]

text \<open>
  The tail loop (lines 785-793) appends the coff rows whose address and function offset
  are both non-zero; \<^verbatim>\<open>MergeStabsAndCoffs\<close> then sorts the merged rows. With no stab row the
  function returns at once, with a count of 0 (lines 725-730).
\<close>

fun coff_tail :: "ROSSYM_ENTRY list \<Rightarrow> ROSSYM_ENTRY list" where
  "coff_tail [] = []"
| "coff_tail (C # Coffs) =
     (if Address C \<noteq> 0 \<and> FunctionOffset C \<noteq> 0 then C # coff_tail Coffs
      else coff_tail Coffs)"

definition MergeStabsAndCoffs ::
  "qsort_fn \<Rightarrow> ROSSYM_ENTRY list \<Rightarrow> ROSSYM_ENTRY list \<Rightarrow> rsym_error + ROSSYM_ENTRY list" where
  "MergeStabsAndCoffs qsort StabSymbols Coffs =
     (if length StabSymbols = 0 then Inr []
      else
        (case merge_loop StabSymbols 0
                \<lparr>MergedSymbols = [], CoffSymbols = Coffs, CoffIndex = 0,
                 StabFunctionStartAddress = 0, StabFunctionStringOffset = 0\<rparr> of
           Inl err \<Rightarrow> Inl err
         | Inr st \<Rightarrow> Inr (qsort CompareSymEntry (MergedSymbols st @ coff_tail (CoffSymbols st)))))"

text \<open>
  The invariant of the outer loop, for a stab vector sorted by address: the merged rows
  have strictly increasing addresses, all below the address of the next stab row, and
  the coff rows keep line 0.
\<close>

definition merge_inv :: "ROSSYM_ENTRY list \<Rightarrow> nat \<Rightarrow> merge_state \<Rightarrow> bool" where
  "merge_inv S i st \<longleftrightarrow>
     sorted_wrt (\<lambda>a b. Address a < Address b) (MergedSymbols st)
     \<and> (i < length S \<longrightarrow> (\<forall>r \<in> set (MergedSymbols st). Address r < Address (S ! i)))
     \<and> (\<forall>C \<in> set (CoffSymbols st). SourceLine C = 0)"

text \<open>
  The length of the \<^verbatim>\<open>.rossym\<close> section as \<^verbatim>\<open>main\<close> computes it (lines 1478-1487): 0 when
  the merged table is empty, else the 16-byte header, 16 bytes per row and the blob.
  \<^verbatim>\<open>CreateOutputFile\<close> appends the section only when this length is not 0.
\<close>

definition RosSymLength :: "ROSSYM_ENTRY list \<Rightarrow> 32 word \<Rightarrow> 32 word" where
  "RosSymLength MergedSymbols0 StringsLength =
     (if length MergedSymbols0 = 0 then 0
      else 16 + of_nat (length MergedSymbols0) * 16 + StringsLength)"

section \<open>The constants of rsym.h\<close>

text \<open>
  \<^verbatim>\<open>rsym.h\<close>, which is not among the sources, declares the STABS type codes, the COFF
  storage class \<^verbatim>\<open>C_EXT\<close> and the macro \<^verbatim>\<open>ISFCN\<close>. The decoders take them as a parameter
  \<open>h\<close>, so what is proved holds for any values. \<open>std_rsym_h\<close> gives the customary
  values of the two formats; it is used only to evaluate runs.
\<close>

record rsym_h =
  N_FUN :: "8 word"
  N_SLINE :: "8 word"
  N_SO :: "8 word"
  N_BINCL :: "8 word"
  N_SOL :: "8 word"
  C_EXT :: "8 word"
  ISFCN :: "16 word \<Rightarrow> bool"

definition std_rsym_h :: rsym_h where
  "std_rsym_h =
     \<lparr>N_FUN = 0x24, N_SLINE = 0x44, N_SO = 0x64, N_BINCL = 0x82, N_SOL = 0x84,
      C_EXT = 2, ISFCN = (\<lambda>x. x AND 0x30 = 0x20)\<rparr>"

section \<open>The STABS decoder\<close>

text \<open>
  Modelled from the spec: \<^verbatim>\<open>STAB_ENTRY\<close> is declared in \<^verbatim>\<open>rsym.h\<close>, which is not among the
  sources. The spec gives the 12-byte record of the \<^verbatim>\<open>.stab\<close> section with the fields
  \<^verbatim>\<open>n_strx\<close> (u32), \<^verbatim>\<open>n_type\<close> (u8), \<^verbatim>\<open>n_desc\<close> (u16) and \<^verbatim>\<open>n_value\<close> (u32); \<^verbatim>\<open>n_other\<close> is
  the remaining byte, which the decoder does not read.

  \<^verbatim>\<open>ConvertStabs\<close> (lines 230-368) receives the records as a list (\<^verbatim>\<open>Count\<close> is its
  length) and the \<^verbatim>\<open>.stabstr\<close> section as the byte list \<open>StabStrings\<close>
  (\<^verbatim>\<open>StabStringsLength\<close> is its length).
\<close>

record STAB_ENTRY =
  n_strx :: "32 word"
  n_type :: "8 word"
  n_other :: "8 word"
  n_desc :: "16 word"
  n_value :: "32 word"

text \<open>
  \<^verbatim>\<open>Address\<close>, \<^verbatim>\<open>LastFunctionAddress\<close> and \<^verbatim>\<open>ImageBase\<close> are declared \<^verbatim>\<open>ULONG_PTR\<close> (lines
  235 and 240): pointer-sized on the compiler of the host, on which the tool is built, so
  32 or 64 bits wide. They are words \<open>'p word\<close> of a width \<open>'p\<close> that is left open.
  \<^verbatim>\<open>n_value\<close> and the \<^verbatim>\<open>Address\<close> field of a row are 32-bit: \<^verbatim>\<open>n_value\<close> is widened
  (\<open>ucast\<close>, zero extension) before the arithmetic and the comparisons, the field is
  widened before it is compared with \<^verbatim>\<open>Address\<close>, and the assignment
  \<^verbatim>\<open>Current->Address = Address\<close> keeps the low 32 bits (\<open>ucast\<close> again).

  The variables that live across the loop. \<open>SymbolsBase\<close> is the output array from its
  start up to and including \<^verbatim>\<open>Current\<close>, so \<^verbatim>\<open>Current\<close> is its last element and
  \<^verbatim>\<open>++Current\<close> appends one. The type parameter of the state is the type of
  \<^verbatim>\<open>LastFunctionAddress\<close>, a \<open>'p word\<close>.
\<close>

record 'a stab_state =
  First :: bool
  SymbolsBase :: "ROSSYM_ENTRY list"
  LastFunctionAddress :: 'a
  StringHash :: StringHashTable
  StringsBase :: "char list"

definition upd_Current :: "(ROSSYM_ENTRY \<Rightarrow> ROSSYM_ENTRY) \<Rightarrow> ROSSYM_ENTRY list \<Rightarrow> ROSSYM_ENTRY list" where
  "upd_Current f rows = butlast rows @ [f (last rows)]"

text \<open>
  The address of a record (lines 273-280): relative to the image base outside a
  function, relative to the function start inside one, in \<^verbatim>\<open>ULONG_PTR\<close> arithmetic.
\<close>

definition stab_address :: "'p::len word \<Rightarrow> 'p word \<Rightarrow> STAB_ENTRY \<Rightarrow> 'p word" where
  "stab_address ImageBase LastFunctionAddr e =
     (if LastFunctionAddr = 0 then ucast (n_value e) - ImageBase
      else LastFunctionAddr + ucast (n_value e))"

text \<open>\<^verbatim>\<open>case N_SO: case N_SOL: case N_BINCL:\<close> (lines 283-309).\<close>

definition stab_SO ::
  "'p::len word \<Rightarrow> char list \<Rightarrow> 'p word stab_state \<Rightarrow> STAB_ENTRY \<Rightarrow> 'p word
     \<Rightarrow> rsym_error + 'p word stab_state" where
  "stab_SO ImageBase StabStrings st e Addr =
     (if length StabStrings < unat (n_strx e) then Inr st
      else
        (case cstr_at StabStrings (unat (n_strx e)) of
           None \<Rightarrow> Inl OutOfBounds
         | Some Name \<Rightarrow>
             if Name = [] \<or> last Name = CHR ''/'' \<or> last Name = CHR 0x5C
                \<or> ucast (n_value e) < ImageBase
             then Inr st
             else
               (let rows = SymbolsBase st;
                    rows1 =
                      (if First st \<or> Addr \<noteq> ucast (Address (last rows)) then
                         (if \<not> First st
                          then rows @ [zero_entry\<lparr>FunctionOffset := FunctionOffset (last rows),
                                                  Address := ucast Addr\<rparr>]
                          else upd_Current (\<lambda>c. c\<lparr>Address := ucast Addr\<rparr>) rows)
                       else rows)
                in case FindOrAddString (StringHash st) Name (StringsBase st) of
                     (off, T, b) \<Rightarrow>
                       Inr (st\<lparr>First := False,
                               SymbolsBase := upd_Current (\<lambda>c. c\<lparr>FileOffset := off\<rparr>) rows1,
                               StringHash := T, StringsBase := b\<rparr>))))"

text \<open>
  \<^verbatim>\<open>case N_FUN:\<close> (lines 310-341). When the record starts a row, the row takes its file offset
  from \<^verbatim>\<open>Current[-1]\<close>; if this is the very first row, \<^verbatim>\<open>Current[-1]\<close> lies before the
  array. \<^verbatim>\<open>strcspn(Name, ":")\<close> is the length of the prefix without a colon, and the name
  fails when \<^verbatim>\<open>sizeof(FuncName)\<close>, 256, is at most that length.
\<close>

definition stab_FUN ::
  "'p::len word \<Rightarrow> char list \<Rightarrow> 'p word stab_state \<Rightarrow> STAB_ENTRY \<Rightarrow> 'p word
     \<Rightarrow> rsym_error + 'p word stab_state" where
  "stab_FUN ImageBase StabStrings st e Addr =
     (if n_desc e = 0 \<or> ucast (n_value e) < ImageBase
      then Inr (st\<lparr>LastFunctionAddress := 0\<rparr>)
      else
        (let rows = SymbolsBase st in
         case (if First st \<or> Addr \<noteq> ucast (Address (last rows)) then
                 (if \<not> First st
                  then Inr (rows @ [zero_entry\<lparr>Address := ucast Addr,
                                               FileOffset := FileOffset (last rows)\<rparr>])
                  else Inl OutOfBounds)
               else Inr rows) of
           Inl err \<Rightarrow> Inl err
         | Inr rows1 \<Rightarrow>
             (case cstr_at StabStrings (unat (n_strx e)) of
                None \<Rightarrow> Inl OutOfBounds
              | Some Name \<Rightarrow>
                  (let NameLen = length (takeWhile (\<lambda>c. c \<noteq> CHR '':'') Name) in
                   if 256 \<le> NameLen then Inl NameTooLong
                   else
                     (case FindOrAddString (StringHash st) (take NameLen Name) (StringsBase st) of
                        (off, T, b) \<Rightarrow>
                          Inr (st\<lparr>First := False,
                                  SymbolsBase :=
                                    upd_Current (\<lambda>c. c\<lparr>FunctionOffset := off, SourceLine := 0\<rparr>) rows1,
                                  LastFunctionAddress := Addr,
                                  StringHash := T, StringsBase := b\<rparr>))))))"

text \<open>\<^verbatim>\<open>case N_SLINE:\<close> (lines 342-356).\<close>

definition stab_SLINE ::
  "'p::len word stab_state \<Rightarrow> STAB_ENTRY \<Rightarrow> 'p word \<Rightarrow> rsym_error + 'p word stab_state" where
  "stab_SLINE st e Addr =
     (let rows = SymbolsBase st;
          rows1 =
            (if First st \<or> Addr \<noteq> ucast (Address (last rows)) then
               (if \<not> First st
                then rows @ [zero_entry\<lparr>FileOffset := FileOffset (last rows),
                                        FunctionOffset := FunctionOffset (last rows),
                                        Address := ucast Addr\<rparr>]
                else upd_Current (\<lambda>c. c\<lparr>Address := ucast Addr\<rparr>) rows)
             else rows)
      in Inr (st\<lparr>First := False,
                 SymbolsBase := upd_Current (\<lambda>c. c\<lparr>SourceLine := ucast (n_desc e)\<rparr>) rows1\<rparr>))"

text \<open>One iteration of the loop over the records (lines 271-360), and the loop.\<close>

definition stab_step ::
  "rsym_h \<Rightarrow> 'p::len word \<Rightarrow> char list \<Rightarrow> 'p word stab_state \<Rightarrow> STAB_ENTRY
     \<Rightarrow> rsym_error + 'p word stab_state" where
  "stab_step h ImageBase StabStrings st e =
     (let Addr = stab_address ImageBase (LastFunctionAddress st) e in
      if n_type e = N_SO h \<or> n_type e = N_SOL h \<or> n_type e = N_BINCL h
      then stab_SO ImageBase StabStrings st e Addr
      else if n_type e = N_FUN h then stab_FUN ImageBase StabStrings st e Addr
      else if n_type e = N_SLINE h then stab_SLINE st e Addr
      else Inr st)"

text \<open>
  \<open>stab_emits\<close>: the record reaches the code that writes the current row, that is, it is
  not skipped by one of the \<^verbatim>\<open>continue\<close> statements of its case.
\<close>

definition stab_emits :: "rsym_h \<Rightarrow> 'p::len word \<Rightarrow> char list \<Rightarrow> STAB_ENTRY \<Rightarrow> bool" where
  "stab_emits h ImageBase StabStrings e =
     (if n_type e = N_SO h \<or> n_type e = N_SOL h \<or> n_type e = N_BINCL h then
        \<not> length StabStrings < unat (n_strx e)
        \<and> (case cstr_at StabStrings (unat (n_strx e)) of
             None \<Rightarrow> False
           | Some Name \<Rightarrow>
               \<not> (Name = [] \<or> last Name = CHR ''/'' \<or> last Name = CHR 0x5C
                  \<or> ucast (n_value e) < ImageBase))
      else if n_type e = N_FUN h then \<not> (n_desc e = 0 \<or> ucast (n_value e) < ImageBase)
      else n_type e = N_SLINE h)"

fun stab_loop ::
  "rsym_h \<Rightarrow> 'p::len word \<Rightarrow> char list \<Rightarrow> 'p word stab_state \<Rightarrow> STAB_ENTRY list
     \<Rightarrow> rsym_error + 'p word stab_state" where
  "stab_loop h ImageBase StabStrings st [] = Inr st"
| "stab_loop h ImageBase StabStrings st (e # StabEntry) =
     (case stab_step h ImageBase StabStrings st e of
        Inl err \<Rightarrow> Inl err
      | Inr st' \<Rightarrow> stab_loop h ImageBase StabStrings st' StabEntry)"

definition ConvertStabs ::
  "qsort_fn \<Rightarrow> rsym_h \<Rightarrow> char list \<Rightarrow> STAB_ENTRY list \<Rightarrow> char list \<Rightarrow> 'p::len word
     \<Rightarrow> rsym_error + ROSSYM_ENTRY list \<times> char list" where
  "ConvertStabs qsort h Strings0 StabEntry StabStrings ImageBase =
     (if length StabEntry = 0 then Inr ([], Strings0)
      else
        (case StringHashTableInit Strings0 of
           Inl err \<Rightarrow> Inl err
         | Inr T \<Rightarrow>
             (case stab_loop h ImageBase StabStrings
                     \<lparr>First = True, SymbolsBase = [zero_entry], LastFunctionAddress = 0,
                      StringHash = T, StringsBase = Strings0\<rparr> StabEntry of
                Inl err \<Rightarrow> Inl err
              | Inr st \<Rightarrow> Inr (qsort CompareSymEntry (SymbolsBase st), StringsBase st))))"

section \<open>The COFF decoder\<close>

text \<open>
  Modelled from the spec: \<^verbatim>\<open>COFF_SYMENT\<close> is declared in \<^verbatim>\<open>rsym.h\<close>, which is not among the
  sources. The spec gives the 18-byte symbol record: an inline 8-byte name whose first 4
  bytes, when zero, make the next 4 an offset into the COFF string table; a value; a
  1-based section number that may be zero or negative; a type; a storage class; the
  number of auxiliary records that follow. The 8 name bytes are a union with the pair
  \<^verbatim>\<open>e_zeroes\<close>, \<^verbatim>\<open>e_offset\<close>: the record keeps the bytes and the two words are read from
  them, least significant byte first. \<^verbatim>\<open>e_scnum\<close> is a signed \<^verbatim>\<open>short\<close>.
\<close>

record COFF_SYMENT =
  e_name :: "char list"
  e_value :: "32 word"
  e_scnum :: "16 word"
  e_type :: "16 word"
  e_sclass :: "8 word"
  e_numaux :: "8 word"

definition le32 :: "char list \<Rightarrow> 32 word" where
  "le32 bytes = foldr (\<lambda>c w. of_char c + 256 * w) bytes 0"

definition e_zeroes :: "COFF_SYMENT \<Rightarrow> 32 word" where
  "e_zeroes E = le32 (take 4 (e_name E))"

definition e_offset :: "COFF_SYMENT \<Rightarrow> 32 word" where
  "e_offset E = le32 (take 4 (drop 4 (e_name E)))"

text \<open>
  Modelled from the spec: \<^verbatim>\<open>IMAGE_SECTION_HEADER\<close> is declared in \<^verbatim>\<open>rsym.h\<close>. Of a section
  header the decoder reads only the \<^verbatim>\<open>VirtualAddress\<close>; \<open>PESectionHeaders\<close> is the array of
  the headers.
\<close>

record IMAGE_SECTION_HEADER =
  VirtualAddress :: "32 word"

text \<open>
  The address of a symbol (lines 403-416): the value, plus the virtual address of its
  section when the section number is positive. A section number larger than
  \<^verbatim>\<open>NumberOfSections\<close> fails.
\<close>

definition coff_address ::
  "16 word \<Rightarrow> IMAGE_SECTION_HEADER list \<Rightarrow> COFF_SYMENT \<Rightarrow> rsym_error + 32 word" where
  "coff_address NumberOfSections PESectionHeaders E =
     (if 0 < sint (e_scnum E) then
        (if uint NumberOfSections < sint (e_scnum E) then Inl MalformedImage
         else
           (case nth_opt PESectionHeaders (nat (sint (e_scnum E)) - 1) of
              None \<Rightarrow> Inl OutOfBounds
            | Some Section \<Rightarrow> Inr (e_value E + VirtualAddress Section)))
      else Inr (e_value E))"

text \<open>
  The name of a symbol (lines 418-433): from the COFF string table at \<^verbatim>\<open>e_offset\<close> when
  \<^verbatim>\<open>e_zeroes\<close> is 0 (a name of 256 bytes or more fails), else the inline 8 bytes, cut at
  the first NUL.
\<close>

definition coff_name :: "char list \<Rightarrow> COFF_SYMENT \<Rightarrow> rsym_error + char list" where
  "coff_name CoffStrings E =
     (if e_zeroes E = 0 then
        (case cstr_at CoffStrings (unat (e_offset E)) of
           None \<Rightarrow> Inl OutOfBounds
         | Some s \<Rightarrow> if 256 \<le> length s then Inl NameTooLong else Inr s)
      else Inr (takeWhile (\<lambda>c. c \<noteq> NUL) (take 8 (e_name E))))"

text \<open>
  The stdcall demangling (lines 435-441): the name is cut at its last \<^verbatim>\<open>@\<close>, then a leading
  \<^verbatim>\<open>_\<close> or \<^verbatim>\<open>@\<close> is skipped.
\<close>

definition demangle :: "char list \<Rightarrow> char list" where
  "demangle FuncName =
     (let cut = (if CHR ''@'' \<in> set FuncName
                 then rev (tl (dropWhile (\<lambda>c. c \<noteq> CHR ''@'') (rev FuncName)))
                 else FuncName)
      in if cut \<noteq> [] \<and> (hd cut = CHR ''_'' \<or> hd cut = CHR ''@'') then tl cut else cut)"

text \<open>
  The loop over the records (lines 399-451). \<open>rows\<close> are the entries filled so far, the
  slots before \<^verbatim>\<open>Current\<close>. After a row is filled, \<^verbatim>\<open>memset(++Current, ...)\<close> clears the next
  slot; the array was allocated with room for \<^verbatim>\<open>Count\<close> entries, so the cleared slot is
  inside it only while fewer than \<^verbatim>\<open>Count - 1\<close> rows have been filled before.
  The index advances past the auxiliary records.
\<close>

function coff_loop ::
  "rsym_h \<Rightarrow> 16 word \<Rightarrow> IMAGE_SECTION_HEADER list \<Rightarrow> char list \<Rightarrow> COFF_SYMENT list \<Rightarrow> nat
     \<Rightarrow> ROSSYM_ENTRY list \<times> StringHashTable \<times> char list
     \<Rightarrow> rsym_error + ROSSYM_ENTRY list \<times> StringHashTable \<times> char list" where
  "coff_loop h NumberOfSections PESectionHeaders CoffStrings CoffEntry i (rows, T, b) =
     (if i < length CoffEntry then
        (let E = CoffEntry ! i; next = i + unat (e_numaux E) + 1 in
         if ISFCN h (e_type E) \<or> C_EXT h = e_sclass E then
           (case coff_address NumberOfSections PESectionHeaders E of
              Inl err \<Rightarrow> Inl err
            | Inr Addr \<Rightarrow>
                (case coff_name CoffStrings E of
                   Inl err \<Rightarrow> Inl err
                 | Inr FuncName \<Rightarrow>
                     (case FindOrAddString T (demangle FuncName) b of
                        (off, T', b') \<Rightarrow>
                          if Suc (length rows) < length CoffEntry then
                            coff_loop h NumberOfSections PESectionHeaders CoffStrings CoffEntry next
                              (rows @ [\<lparr>Address = Addr, FileOffset = 0, FunctionOffset = off,
                                        SourceLine = 0\<rparr>], T', b')
                          else Inl OutOfBounds)))
         else coff_loop h NumberOfSections PESectionHeaders CoffStrings CoffEntry next (rows, T, b))
      else Inr (rows, T, b))"
  by pat_completeness auto
termination
  by (relation "measure (\<lambda>(h, n, p, cs, ce, i, s). length ce - i)") auto

declare coff_loop.simps [simp del]

text \<open>
  The array when the loop is left (line 453): the filled rows and the slot \<^verbatim>\<open>Current\<close>
  points at, which is counted too. That slot was cleared by the last \<^verbatim>\<open>memset\<close> if a row
  was filled; otherwise it still holds whatever \<^verbatim>\<open>malloc\<close> returned, the parameter
  \<open>uninit\<close>. \<^verbatim>\<open>ConvertCoffs\<close> (lines 370-459) sorts this array; \<^verbatim>\<open>*SymbolsCount\<close> is the
  length of the list it returns.
\<close>

definition ConvertCoffs_array ::
  "rsym_h \<Rightarrow> ROSSYM_ENTRY \<Rightarrow> char list \<Rightarrow> COFF_SYMENT list \<Rightarrow> char list \<Rightarrow> 16 word
     \<Rightarrow> IMAGE_SECTION_HEADER list \<Rightarrow> rsym_error + ROSSYM_ENTRY list \<times> char list" where
  "ConvertCoffs_array h uninit Strings0 CoffEntry CoffStrings NumberOfSections PESectionHeaders =
     (case StringHashTableInit Strings0 of
        Inl err \<Rightarrow> Inl err
      | Inr T \<Rightarrow>
          (case coff_loop h NumberOfSections PESectionHeaders CoffStrings CoffEntry 0
                  ([], T, Strings0) of
             Inl err \<Rightarrow> Inl err
           | Inr (rows, T', b') \<Rightarrow>
               Inr (rows @ [if rows = [] then uninit else zero_entry], b')))"

definition ConvertCoffs ::
  "qsort_fn \<Rightarrow> rsym_h \<Rightarrow> ROSSYM_ENTRY \<Rightarrow> char list \<Rightarrow> COFF_SYMENT list \<Rightarrow> char list \<Rightarrow> 16 word
     \<Rightarrow> IMAGE_SECTION_HEADER list \<Rightarrow> rsym_error + ROSSYM_ENTRY list \<times> char list" where
  "ConvertCoffs qsort h uninit Strings0 CoffEntry CoffStrings NumberOfSections PESectionHeaders =
     (case ConvertCoffs_array h uninit Strings0 CoffEntry CoffStrings NumberOfSections
             PESectionHeaders of
        Inl err \<Rightarrow> Inl err
      | Inr (Symbols, b') \<Rightarrow> Inr (qsort CompareSymEntry Symbols, b'))"

text \<open>
  The records the loop accepts: those it visits (not skipped as auxiliary records) whose
  type is a function or whose storage class is \<^verbatim>\<open>C_EXT\<close>.
\<close>

function coff_accepted :: "rsym_h \<Rightarrow> COFF_SYMENT list \<Rightarrow> nat \<Rightarrow> COFF_SYMENT list" where
  "coff_accepted h CoffEntry i =
     (if i < length CoffEntry then
        (let E = CoffEntry ! i in
         (if ISFCN h (e_type E) \<or> C_EXT h = e_sclass E then [E] else [])
         @ coff_accepted h CoffEntry (i + unat (e_numaux E) + 1))
      else [])"
  by pat_completeness auto
termination
  by (relation "measure (\<lambda>(h, ce, i). length ce - i)") auto

declare coff_accepted.simps [simp del]

section \<open>The front of main\<close>

text \<open>
  \<^verbatim>\<open>main\<close> (lines 1224-1554) up to the test of the DOS header. The command line is the
  list of \<^verbatim>\<open>argv[1]\<close>, ..., scanned by the state machine of lines 1261-1292;
  \<^verbatim>\<open>path1\<close>, \<^verbatim>\<open>path2\<close> and \<^verbatim>\<open>SourcePath\<close> are unset until assigned (using an unset
  \<^verbatim>\<open>path1\<close> would be a read through a wild pointer).
  \<^verbatim>\<open>convert_path\<close> and \<^verbatim>\<open>load_file\<close> are helpers of the tools tree and are parameters;
  \<^verbatim>\<open>load_file\<close> yields the bytes of the file or nothing. Everything \<^verbatim>\<open>main\<close> does after
  the header test (from line 1322 on) is the parameter \<open>pipeline\<close>.
\<close>

record arg_state =
  argstate :: int
  path1 :: "string option"
  path2 :: "string option"
  SourcePath :: "string option"

definition arg_step :: "(string \<Rightarrow> string) \<Rightarrow> arg_state \<Rightarrow> string \<Rightarrow> arg_state" where
  "arg_step convert_path a arg =
     (if argstate a = 0 then
        (if arg = ''-s'' then a\<lparr>argstate := 1\<rparr>
         else a\<lparr>argstate := 2, path1 := Some (convert_path arg)\<rparr>)
      else if argstate a = 1 then a\<lparr>SourcePath := Some arg, argstate := 0\<rparr>
      else if argstate a = 2 then a\<lparr>path2 := Some (convert_path arg), argstate := 3\<rparr>
      else a\<lparr>argstate := - 1\<rparr>)"

definition parse_args :: "(string \<Rightarrow> string) \<Rightarrow> string list \<Rightarrow> arg_state" where
  "parse_args convert_path argv =
     foldl (arg_step convert_path)
       \<lparr>argstate = 0, path1 = None, path2 = None, SourcePath = None\<rparr> argv"

text \<open>
  What a run of the tool leaves behind: its exit status and whether the output file was
  created.
\<close>

record run_result =
  exit_status :: int
  output_created :: bool

text \<open>
  Modelled from the spec: \<^verbatim>\<open>IMAGE_DOS_HEADER\<close> and \<^verbatim>\<open>IMAGE_DOS_MAGIC\<close> are declared in
  \<^verbatim>\<open>rsym.h\<close>, which is not among the sources. The spec names the \<^verbatim>\<open>MZ\<close> magic and the
  field \<^verbatim>\<open>e_lfanew\<close>; in the PE format \<^verbatim>\<open>e_magic\<close> is the 16-bit word at byte 0 and
  \<^verbatim>\<open>e_lfanew\<close> the 32-bit word at byte 60, least significant byte first.
\<close>

definition IMAGE_DOS_MAGIC :: "16 word" where
  "IMAGE_DOS_MAGIC = 0x5A4D"

definition e_magic :: "char list \<Rightarrow> 16 word option" where
  "e_magic FileData =
     (if 2 \<le> length FileData
      then Some (of_char (FileData ! 0) + 256 * of_char (FileData ! 1))
      else None)"

definition e_lfanew :: "char list \<Rightarrow> 32 word option" where
  "e_lfanew FileData =
     (if 64 \<le> length FileData then Some (le32 (take 4 (drop 60 FileData))) else None)"

definition elfhdr :: "char list" where
  "elfhdr = [CHR 0x7F, CHR ''E'', CHR ''L'', CHR ''F'']"

text \<open>
  \<open>not_pe\<close> is the condition of line 1311, with the short-circuit of \<^verbatim>\<open>||\<close>: \<^verbatim>\<open>e_lfanew\<close> is
  read only when the magic matches. The branch taken when it holds (lines 1313-1320)
  compares the first four bytes with \<open>elfhdr\<close>.
\<close>

definition not_pe :: "char list \<Rightarrow> rsym_error + bool" where
  "not_pe FileData =
     (case e_magic FileData of
        None \<Rightarrow> Inl OutOfBounds
      | Some magic \<Rightarrow>
          if magic \<noteq> IMAGE_DOS_MAGIC then Inr True
          else (case e_lfanew FileData of
                  None \<Rightarrow> Inl OutOfBounds
                | Some lfanew \<Rightarrow> Inr (lfanew = 0)))"

definition main ::
  "(string \<Rightarrow> string) \<Rightarrow> (string \<Rightarrow> char list option)
     \<Rightarrow> (arg_state \<Rightarrow> char list \<Rightarrow> rsym_error + run_result)
     \<Rightarrow> string list \<Rightarrow> rsym_error + run_result" where
  "main convert_path load_file pipeline argv =
     (let a = parse_args convert_path argv in
      if argstate a \<noteq> 3 then Inr \<lparr>exit_status = 1, output_created = False\<rparr>
      else
        (case path1 a of
           None \<Rightarrow> Inl OutOfBounds
         | Some input \<Rightarrow>
             (case load_file input of
                None \<Rightarrow> Inr \<lparr>exit_status = 1, output_created = False\<rparr>
              | Some FileData \<Rightarrow>
                  (case not_pe FileData of
                     Inl err \<Rightarrow> Inl err
                   | Inr True \<Rightarrow>
                       if length FileData < 4 then Inl OutOfBounds
                       else if take 4 FileData = elfhdr
                       then Inr \<lparr>exit_status = 0, output_created = False\<rparr>
                       else Inr \<lparr>exit_status = 1, output_created = False\<rparr>
                   | Inr False \<Rightarrow> pipeline a FileData))))"

section \<open>A small COFF symbol table\<close>

text \<open>
  A symbol table used to evaluate the COFF decoder: two external function symbols,
  \<^verbatim>\<open>_main\<close> at offset 0 and \<^verbatim>\<open>_f@4\<close> at offset 8 of the first section, the first followed
  by one auxiliary record, and a static section symbol. With the section at 0x1000 the
  two externals lie at 0x1000 and 0x1008.
\<close>

definition example_coff :: "COFF_SYMENT list" where
  "example_coff =
     [\<lparr>e_name = ''_main'' @ [NUL, NUL, NUL], e_value = 0, e_scnum = 1, e_type = 0x20,
       e_sclass = 2, e_numaux = 1\<rparr>,
      \<lparr>e_name = replicate 8 NUL, e_value = 0, e_scnum = 0, e_type = 0,
       e_sclass = 2, e_numaux = 0\<rparr>,
      \<lparr>e_name = ''_f@4'' @ [NUL, NUL, NUL, NUL], e_value = 8, e_scnum = 1, e_type = 0x20,
       e_sclass = 2, e_numaux = 0\<rparr>,
      \<lparr>e_name = ''.text'' @ [NUL, NUL, NUL], e_value = 0, e_scnum = 1, e_type = 0,
       e_sclass = 3, e_numaux = 0\<rparr>]"

definition example_sections :: "IMAGE_SECTION_HEADER list" where
  "example_sections = [\<lparr>VirtualAddress = 0x1000\<rparr>]"

chapter \<open>Verification\<close>

section \<open>The intern contract\<close>

lemma cstr_at_append:
  "cstr_at mem p = Some s \<Longrightarrow> cstr_at (mem @ ext) p = Some s"
  by (auto simp: cstr_at_def takeWhile_append1 split: if_splits)

lemma takeWhile_cstring:
  "NUL \<notin> set s \<Longrightarrow> takeWhile (\<lambda>c. c \<noteq> NUL) (s @ NUL # rest) = s"
  by (induction s) auto

lemma cstr_at_end:
  "NUL \<notin> set s \<Longrightarrow> cstr_at (mem @ s @ [NUL]) (length mem) = Some s"
  by (simp add: cstr_at_def takeWhile_cstring)

lemma find_entry_Some:
  "find_entry b s es = Some e \<Longrightarrow> e \<in> set es \<and> cstr_at b (String e) = Some s"
  by (induction es) (auto split: if_splits)

lemma find_entry_None:
  "find_entry b s es = None \<Longrightarrow> e \<in> set es \<Longrightarrow> cstr_at b (String e) \<noteq> Some s"
  by (induction es) (auto split: if_splits)

lemma find_entry_present:
  "e \<in> set es \<Longrightarrow> cstr_at b (String e) = Some s \<Longrightarrow> \<exists>e'. find_entry b s es = Some e'"
  by (induction es) auto

lemma bucket_of_AddStringToHash [simp]:
  "bucket_of (AddStringToHash T h off p) s = bucket_of T s"
  by (simp add: bucket_of_def AddStringToHash_def)

lemma Table_AddStringToHash:
  "Table (AddStringToHash T h off p) h' =
     (if h' = h then \<lparr>Offset = off, String = p\<rparr> # Table T h else Table T h')"
  by (simp add: AddStringToHash_def)

text \<open>The two ways \<open>FindOrAddString\<close> can go.\<close>

lemma FindOrAddString_cases:
  "(\<exists>e. find_entry b s (Table T (bucket_of T s)) = Some e
        \<and> FindOrAddString T s b = (Offset e, T, b))
   \<or> (find_entry b s (Table T (bucket_of T s)) = None \<and>
       FindOrAddString T s b =
         (of_nat (length b), AddStringToHash T (bucket_of T s) (of_nat (length b)) (length b),
          b @ s @ [NUL]))"
  by (cases "find_entry b s (Table T (bucket_of T s))")
     (simp_all add: FindOrAddString_def Let_def)

lemma FindOrAddString_found:
  assumes ok: "table_ok T b" and rec: "recorded T b off s"
  shows "FindOrAddString T s b = (off, T, b)"
proof -
  from rec obtain h e where
    e: "e \<in> set (Table T h)" "Offset e = off" "cstr_at b (String e) = Some s"
    by (auto simp: recorded_def)
  from ok e(1) obtain s' where "cstr_at b (String e) = Some s'" "bucket_of T s' = h"
    unfolding table_ok_def by blast
  with e(3) have h: "h = bucket_of T s" by simp
  from find_entry_present [OF e(1) e(3)] obtain e' where
    f: "find_entry b s (Table T (bucket_of T s)) = Some e'" by (auto simp: h)
  from find_entry_Some [OF f]
  have e': "e' \<in> set (Table T (bucket_of T s))" "cstr_at b (String e') = Some s"
    by auto
  have "cstr_at b (String e') = cstr_at b (String e)" using e e' by simp
  with ok e(1) e'(1) have "Offset e' = Offset e" unfolding table_ok_def by blast
  moreover have "FindOrAddString T s b = (Offset e', T, b)"
    using f by (simp add: FindOrAddString_def)
  ultimately show ?thesis using e(2) by simp
qed

lemma FindOrAddString_absent:
  assumes nul: "NUL \<notin> set s" and abs: "\<forall>off. \<not> recorded T b off s"
  shows "\<exists>T'. FindOrAddString T s b = (of_nat (length b), T', b @ s @ [NUL])
            \<and> recorded T' (b @ s @ [NUL]) (of_nat (length b)) s"
proof -
  have "find_entry b s (Table T (bucket_of T s)) = None"
  proof (cases "find_entry b s (Table T (bucket_of T s))")
    case (Some e)
    from find_entry_Some [OF Some] abs show ?thesis by (auto simp: recorded_def)
  qed simp
  then have eq: "FindOrAddString T s b =
      (of_nat (length b), AddStringToHash T (bucket_of T s) (of_nat (length b)) (length b),
       b @ s @ [NUL])"
    by (simp add: FindOrAddString_def Let_def)
  have "recorded (AddStringToHash T (bucket_of T s) (of_nat (length b)) (length b))
          (b @ s @ [NUL]) (of_nat (length b)) s"
    unfolding recorded_def
    by (rule exI [of _ "bucket_of T s"],
        rule exI [of _ "\<lparr>Offset = of_nat (length b), String = length b\<rparr>"])
       (simp add: AddStringToHash_def cstr_at_end [OF nul])
  with eq show ?thesis by blast
qed

text \<open>Whatever the table, the returned offset is one at which the string is recorded.\<close>

lemma FindOrAddString_recorded:
  assumes nul: "NUL \<notin> set s" and r: "FindOrAddString T s b = (off, T', b')"
  shows "recorded T' b' off s"
  using FindOrAddString_cases [of b s T]
proof (elim disjE exE conjE)
  fix e
  assume f: "find_entry b s (Table T (bucket_of T s)) = Some e"
    and "FindOrAddString T s b = (Offset e, T, b)"
  with r have "off = Offset e" "T' = T" "b' = b" by auto
  with find_entry_Some [OF f] show ?thesis unfolding recorded_def by blast
next
  assume "FindOrAddString T s b =
         (of_nat (length b), AddStringToHash T (bucket_of T s) (of_nat (length b)) (length b),
          b @ s @ [NUL])"
  with r have eq: "off = of_nat (length b)"
     "T' = AddStringToHash T (bucket_of T s) (of_nat (length b)) (length b)"
     "b' = b @ s @ [NUL]"
    by auto
  show ?thesis
    unfolding recorded_def eq
    by (rule exI [of _ "bucket_of T s"],
        rule exI [of _ "\<lparr>Offset = of_nat (length b), String = length b\<rparr>"])
       (simp add: AddStringToHash_def cstr_at_end [OF nul])
qed

lemma table_ok_add:
  assumes ok: "table_ok T b" and nul: "NUL \<notin> set s"
    and none: "find_entry b s (Table T (bucket_of T s)) = None"
  shows "table_ok (AddStringToHash T (bucket_of T s) (of_nat (length b)) (length b))
           (b @ s @ [NUL])"
proof -
  let ?T = "AddStringToHash T (bucket_of T s) (of_nat (length b)) (length b)"
  let ?b = "b @ s @ [NUL]"
  let ?new = "\<lparr>Offset = of_nat (length b) :: 32 word, String = length b\<rparr>"
  have new: "cstr_at ?b (String ?new) = Some s" by (simp add: cstr_at_end [OF nul])
  have old: "\<exists>s'. cstr_at b (String e) = Some s' \<and> cstr_at ?b (String e) = Some s'
                \<and> bucket_of T s' = h \<and> s' \<noteq> s"
    if "e \<in> set (Table T h)" for e h
  proof -
    from ok that obtain s' where s': "cstr_at b (String e) = Some s'" "bucket_of T s' = h"
      unfolding table_ok_def by blast
    have "s' \<noteq> s"
    proof
      assume "s' = s"
      with s' that have "e \<in> set (Table T (bucket_of T s))" "cstr_at b (String e) = Some s"
        by auto
      with find_entry_None [OF none] show False by blast
    qed
    with s' cstr_at_append [OF s'(1)] show ?thesis by blast
  qed
  have cases: "e = ?new \<and> h = bucket_of T s \<or> e \<in> set (Table T h)"
    if "e \<in> set (Table ?T h)" for e h
    using that by (auto simp: Table_AddStringToHash split: if_splits)
  have p1: "\<exists>s'. cstr_at ?b (String e) = Some s' \<and> bucket_of ?T s' = h"
    if "e \<in> set (Table ?T h)" for e h
    using cases [OF that] new old [of e h] by auto
  have p2: "Offset e = Offset e'"
    if A: "e \<in> set (Table ?T h)" and B: "e' \<in> set (Table ?T h')"
       and C: "cstr_at ?b (String e) = cstr_at ?b (String e')" for e h e' h'
  proof -
    consider (nn) "e = ?new" "e' = ?new" | (no) "e = ?new" "e' \<in> set (Table T h')"
      | (on) "e \<in> set (Table T h)" "e' = ?new"
      | (oo) "e \<in> set (Table T h)" "e' \<in> set (Table T h')"
      using cases [OF A] cases [OF B] by blast
    then show ?thesis
    proof cases
      case nn then show ?thesis by simp
    next
      case no with old [of e' h'] new C show ?thesis by auto
    next
      case on with old [of e h] new C show ?thesis by auto
    next
      case oo
      from old [OF oo(1)] old [OF oo(2)] C
      have "cstr_at b (String e) = cstr_at b (String e')" by auto
      with ok oo show ?thesis unfolding table_ok_def by blast
    qed
  qed
  show ?thesis unfolding table_ok_def using p1 p2 by blast
qed

lemma FindOrAddString_table_ok:
  assumes "table_ok T b" and "NUL \<notin> set s" and "FindOrAddString T s b = (off, T', b')"
  shows "table_ok T' b'"
  using FindOrAddString_cases [of b s T] assms table_ok_add [of T b s] by auto

lemma FindOrAddString_again:
  assumes nul: "NUL \<notin> set s" and r: "FindOrAddString T s b = (off, T', b')"
  shows "FindOrAddString T' s b' = (off, T', b')"
  using FindOrAddString_cases [of b s T]
proof (elim disjE exE conjE)
  fix e
  assume "find_entry b s (Table T (bucket_of T s)) = Some e"
    "FindOrAddString T s b = (Offset e, T, b)"
  with r show ?thesis by (simp add: FindOrAddString_def)
next
  assume "FindOrAddString T s b =
         (of_nat (length b), AddStringToHash T (bucket_of T s) (of_nat (length b)) (length b),
          b @ s @ [NUL])"
  with r have eq: "off = of_nat (length b)"
     "T' = AddStringToHash T (bucket_of T s) (of_nat (length b)) (length b)"
     "b' = b @ s @ [NUL]"
    by auto
  show ?thesis
    by (simp add: eq FindOrAddString_def Table_AddStringToHash cstr_at_end [OF nul])
qed

text \<open>The table of the seeded blob: the state every run of the decoders starts from.\<close>

lemma StringHashTableInit_seed: "StringHashTableInit [NUL] = Inr seeded_table"
  by (simp add: StringHashTableInit_def seeded_table_def cstr_at_def AddStringToHash_def
        bucket_of_def ComputeDJBHash_def)

lemma table_ok_seed: "table_ok seeded_table [NUL]"
  by (auto simp: table_ok_def seeded_table_def cstr_at_def bucket_of_def ComputeDJBHash_def
           split: if_splits)

text \<open>
  C6. In a table that satisfies \<open>table_ok\<close>, for a C string \<open>s\<close> (no NUL inside):
  if \<open>s\<close> is recorded at an offset, interning \<open>s\<close> returns that offset and changes
  neither the table nor the blob; if \<open>s\<close> is recorded nowhere, interning appends \<open>s\<close>
  and a NUL to the blob and returns the length the blob had before; in both cases
  interning \<open>s\<close> a second time returns the same offset and changes nothing, and the
  table still satisfies \<open>table_ok\<close>.
\<close>

theorem FindOrAddString_contract:
  assumes "table_ok T b" and "NUL \<notin> set s"
  shows "(\<forall>off. recorded T b off s \<longrightarrow> FindOrAddString T s b = (off, T, b))
       \<and> ((\<forall>off. \<not> recorded T b off s) \<longrightarrow>
            (\<exists>T'. FindOrAddString T s b = (of_nat (length b), T', b @ s @ [NUL])
                 \<and> recorded T' (b @ s @ [NUL]) (of_nat (length b)) s))
       \<and> (\<forall>off T' b'. FindOrAddString T s b = (off, T', b') \<longrightarrow>
            FindOrAddString T' s b' = (off, T', b') \<and> table_ok T' b')"
  using assms FindOrAddString_found [of T b _ s] FindOrAddString_absent [of s T b]
    FindOrAddString_again [of s T b] FindOrAddString_table_ok [of T b s]
  by blast

theorem FindOrAddString_contract_witness:
  "table_ok seeded_table [NUL] \<and> NUL \<notin> set ''bar''
   \<and> FindOrAddString seeded_table [] [NUL] = (0, seeded_table, [NUL])
   \<and> fst (FindOrAddString seeded_table ''bar'' [NUL]) = 1
   \<and> snd (snd (FindOrAddString seeded_table ''bar'' [NUL])) = NUL # ''bar'' @ [NUL]
   \<and> fst (FindOrAddString (fst (snd (FindOrAddString seeded_table ''bar'' [NUL]))) ''bar''
            (snd (snd (FindOrAddString seeded_table ''bar'' [NUL])))) = 1"
proof -
  have nul: "NUL \<notin> set ''bar''" "NUL \<notin> set []" by (simp_all add: NUL_def)
  have r0: "recorded seeded_table [NUL] 0 []"
    unfolding recorded_def
    by (rule exI [of _ 261], rule exI [of _ "\<lparr>Offset = 0, String = 0\<rparr>"])
       (simp add: seeded_table_def cstr_at_def)
  have abs: "\<forall>off. \<not> recorded seeded_table [NUL] off ''bar''"
    by (auto simp: recorded_def seeded_table_def cstr_at_def split: if_splits)
  note c0 = FindOrAddString_contract [OF table_ok_seed nul(2)]
  note c1 = FindOrAddString_contract [OF table_ok_seed nul(1)]
  from c0 r0 have a: "FindOrAddString seeded_table [] [NUL] = (0, seeded_table, [NUL])"
    by blast
  from c1 abs obtain T' where
    b: "FindOrAddString seeded_table ''bar'' [NUL] = (of_nat (length [NUL]), T', [NUL] @ ''bar'' @ [NUL])"
    by blast
  from c1 b have "FindOrAddString T' ''bar'' ([NUL] @ ''bar'' @ [NUL])
                  = (of_nat (length [NUL]), T', [NUL] @ ''bar'' @ [NUL])"
    by blast
  with a b nul table_ok_seed show ?thesis by simp
qed

section \<open>The comparator\<close>

text \<open>
  C9. Two rows with the same address and both with line 0 compare as \<open>-1\<close> in either
  order: the comparator answers "strictly before" both ways, so it is not antisymmetric
  on such pairs.
\<close>

theorem CompareSymEntry_line0_both_less:
  assumes "Address a = Address b" and "SourceLine a = 0" and "SourceLine b = 0"
  shows "CompareSymEntry a b = - 1 \<and> CompareSymEntry b a = - 1
         \<and> CompareSymEntry a b \<noteq> - CompareSymEntry b a"
  using assms by (simp add: CompareSymEntry_def)

theorem CompareSymEntry_line0_both_less_witness:
  "CompareSymEntry \<lparr>Address = 0x1000, FileOffset = 0, FunctionOffset = 5, SourceLine = 0\<rparr>
                   \<lparr>Address = 0x1000, FileOffset = 0, FunctionOffset = 9, SourceLine = 0\<rparr> = - 1
   \<and> CompareSymEntry \<lparr>Address = 0x1000, FileOffset = 0, FunctionOffset = 9, SourceLine = 0\<rparr>
                     \<lparr>Address = 0x1000, FileOffset = 0, FunctionOffset = 5, SourceLine = 0\<rparr> = - 1"
  using CompareSymEntry_line0_both_less
          [of "\<lparr>Address = 0x1000, FileOffset = 0, FunctionOffset = 5, SourceLine = 0\<rparr>"
              "\<lparr>Address = 0x1000, FileOffset = 0, FunctionOffset = 9, SourceLine = 0\<rparr>"]
  by simp

text \<open>
  "Not greater" is nevertheless a total preorder: it is the order by address in which, at
  one address, the rows with a line come before the rows with line 0.
\<close>

lemma CompareSymEntry_le0_iff:
  "CompareSymEntry a b \<le> 0 \<longleftrightarrow>
     Address a < Address b
     \<or> (Address a = Address b \<and> (SourceLine b = 0 \<or> SourceLine a \<noteq> 0))"
  by (auto simp: CompareSymEntry_def)

lemma CompareSymEntry_le0_trans:
  "CompareSymEntry a b \<le> 0 \<Longrightarrow> CompareSymEntry b c \<le> 0 \<Longrightarrow> CompareSymEntry a c \<le> 0"
  unfolding CompareSymEntry_le0_iff by auto

lemma CompareSymEntry_le0_total:
  "\<not> CompareSymEntry a b \<le> 0 \<Longrightarrow> CompareSymEntry b a \<le> 0"
  unfolding CompareSymEntry_le0_iff by auto

text \<open>So the contract of \<open>qsort\<close> can be met: the insertion sort meets it.\<close>

lemma mset_insert_by: "mset (insert_by cmp x xs) = add_mset x (mset xs)"
  by (induction xs) auto

lemma set_insert_by: "set (insert_by cmp x xs) = insert x (set xs)"
  by (induction xs) auto

lemma mset_insertion_qsort: "mset (insertion_qsort cmp xs) = mset xs"
  by (induction xs) (auto simp: insertion_qsort_def mset_insert_by)

lemma sorted_insert_by:
  "sorted_wrt (\<lambda>a b. CompareSymEntry a b \<le> 0) xs \<Longrightarrow>
   sorted_wrt (\<lambda>a b. CompareSymEntry a b \<le> 0) (insert_by CompareSymEntry x xs)"
proof (induction xs)
  case Nil
  then show ?case by simp
next
  case (Cons y ys)
  show ?case
  proof (cases "CompareSymEntry x y \<le> 0")
    case True
    with Cons.prems show ?thesis
      by (auto intro: CompareSymEntry_le0_trans)
  next
    case False
    then have "CompareSymEntry y x \<le> 0" by (rule CompareSymEntry_le0_total)
    with False Cons show ?thesis
      by (auto simp: set_insert_by)
  qed
qed

lemma sorted_insertion_qsort:
  "sorted_wrt (\<lambda>a b. CompareSymEntry a b \<le> 0) (insertion_qsort CompareSymEntry xs)"
  by (induction xs) (auto simp: insertion_qsort_def sorted_insert_by)

lemma insertion_qsort_contract: "qsort_contract insertion_qsort"
  by (simp add: qsort_contract_def mset_insertion_qsort sorted_insertion_qsort)

text \<open>What the contract gives for the order of a sorted table.\<close>

lemma qsort_contract_order:
  assumes "qsort_contract qsort"
  shows "address_ascending (qsort CompareSymEntry xs) \<and> line0_last (qsort CompareSymEntry xs)"
proof -
  have s: "sorted_wrt (\<lambda>a b. CompareSymEntry a b \<le> 0) (qsort CompareSymEntry xs)"
    using assms by (simp add: qsort_contract_def)
  have "sorted_wrt (\<lambda>a b. Address a \<le> Address b) (qsort CompareSymEntry xs)"
    by (rule sorted_wrt_mono_rel [OF _ s]) (auto simp: CompareSymEntry_le0_iff)
  moreover have "sorted_wrt (\<lambda>a b. Address a = Address b \<longrightarrow>
                    \<not> (SourceLine a = 0 \<and> SourceLine b \<noteq> 0)) (qsort CompareSymEntry xs)"
    by (rule sorted_wrt_mono_rel [OF _ s]) (auto simp: CompareSymEntry_le0_iff)
  ultimately show ?thesis by (simp add: address_ascending_def line0_last_def)
qed

section \<open>The merger\<close>

lemma MergeStabsAndCoffs_cases:
  assumes "MergeStabsAndCoffs qsort StabSymbols Coffs = Inr out"
  shows "(StabSymbols = [] \<and> out = []) \<or>
         (\<exists>st. merge_loop StabSymbols 0
                \<lparr>MergedSymbols = [], CoffSymbols = Coffs, CoffIndex = 0,
                 StabFunctionStartAddress = 0, StabFunctionStringOffset = 0\<rparr> = Inr st
              \<and> out = qsort CompareSymEntry (MergedSymbols st @ coff_tail (CoffSymbols st)))"
  using assms by (auto simp: MergeStabsAndCoffs_def split: if_splits sum.splits)

text \<open>
  C1, as the code has it. The final table is sorted by address ascending, and among the
  rows of one address every row with a line comes before every row with line 0 (the
  order the final \<open>qsort\<close> establishes with \<open>CompareSymEntry\<close>, under the contract of
  \<open>qsort\<close>).
\<close>

theorem merged_table_order:
  assumes "qsort_contract qsort" and "MergeStabsAndCoffs qsort StabSymbols Coffs = Inr out"
  shows "address_ascending out \<and> line0_last out"
proof -
  from MergeStabsAndCoffs_cases [OF assms(2)]
  have "out = [] \<or> (\<exists>xs. out = qsort CompareSymEntry xs)" by blast
  then show ?thesis
  proof
    assume "out = []"
    then show ?thesis by (simp add: address_ascending_def line0_last_def)
  next
    assume "\<exists>xs. out = qsort CompareSymEntry xs"
    with qsort_contract_order [OF assms(1)] show ?thesis by blast
  qed
qed

theorem merged_table_order_witness:
  "qsort_contract insertion_qsort
   \<and> MergeStabsAndCoffs insertion_qsort
       [\<lparr>Address = 0x1000, FileOffset = 1, FunctionOffset = 7, SourceLine = 10\<rparr>]
       [zero_entry,
        \<lparr>Address = 0x1000, FileOffset = 0, FunctionOffset = 7, SourceLine = 0\<rparr>,
        \<lparr>Address = 0x2000, FileOffset = 0, FunctionOffset = 15, SourceLine = 0\<rparr>]
     = Inr [\<lparr>Address = 0x1000, FileOffset = 1, FunctionOffset = 7, SourceLine = 10\<rparr>,
            \<lparr>Address = 0x1000, FileOffset = 0, FunctionOffset = 7, SourceLine = 0\<rparr>,
            \<lparr>Address = 0x2000, FileOffset = 0, FunctionOffset = 15, SourceLine = 0\<rparr>]
   \<and> address_ascending
        [\<lparr>Address = 0x1000, FileOffset = 1, FunctionOffset = 7, SourceLine = 10\<rparr>,
         \<lparr>Address = 0x1000, FileOffset = 0, FunctionOffset = 7, SourceLine = 0\<rparr>,
         \<lparr>Address = 0x2000, FileOffset = 0, FunctionOffset = 15, SourceLine = 0\<rparr>]
   \<and> line0_last
        [\<lparr>Address = 0x1000, FileOffset = 1, FunctionOffset = 7, SourceLine = 10\<rparr>,
         \<lparr>Address = 0x1000, FileOffset = 0, FunctionOffset = 7, SourceLine = 0\<rparr>,
         \<lparr>Address = 0x2000, FileOffset = 0, FunctionOffset = 15, SourceLine = 0\<rparr>]"
proof -
  have run: "MergeStabsAndCoffs insertion_qsort
       [\<lparr>Address = 0x1000, FileOffset = 1, FunctionOffset = 7, SourceLine = 10\<rparr>]
       [zero_entry,
        \<lparr>Address = 0x1000, FileOffset = 0, FunctionOffset = 7, SourceLine = 0\<rparr>,
        \<lparr>Address = 0x2000, FileOffset = 0, FunctionOffset = 15, SourceLine = 0\<rparr>]
     = Inr [\<lparr>Address = 0x1000, FileOffset = 1, FunctionOffset = 7, SourceLine = 10\<rparr>,
            \<lparr>Address = 0x1000, FileOffset = 0, FunctionOffset = 7, SourceLine = 0\<rparr>,
            \<lparr>Address = 0x2000, FileOffset = 0, FunctionOffset = 15, SourceLine = 0\<rparr>]"
    by (simp add: MergeStabsAndCoffs_def merge_loop.simps merge_step_def collapse_loop.simps
          coff_advance.simps coff_override_def nth_opt_def zero_entry_def insertion_qsort_def
          CompareSymEntry_def)
  from merged_table_order [OF insertion_qsort_contract run] run insertion_qsort_contract
  show ?thesis by simp
qed

text \<open>
  C1, as the claim states it, fails. A stab row with line 10 at 0x1000 and a coff row (line
  0) at the same address: the coff row is not consumed by the override, which needs a
  strictly smaller coff address, so both reach the final table, and there the row with
  the line stands first.
\<close>

theorem merged_line0_first_counterexample:
  "MergeStabsAndCoffs insertion_qsort
       [\<lparr>Address = 0x1000, FileOffset = 1, FunctionOffset = 7, SourceLine = 10\<rparr>]
       [zero_entry,
        \<lparr>Address = 0x1000, FileOffset = 0, FunctionOffset = 7, SourceLine = 0\<rparr>,
        \<lparr>Address = 0x2000, FileOffset = 0, FunctionOffset = 15, SourceLine = 0\<rparr>]
     = Inr [\<lparr>Address = 0x1000, FileOffset = 1, FunctionOffset = 7, SourceLine = 10\<rparr>,
            \<lparr>Address = 0x1000, FileOffset = 0, FunctionOffset = 7, SourceLine = 0\<rparr>,
            \<lparr>Address = 0x2000, FileOffset = 0, FunctionOffset = 15, SourceLine = 0\<rparr>]
   \<and> \<not> line0_first
        [\<lparr>Address = 0x1000, FileOffset = 1, FunctionOffset = 7, SourceLine = 10\<rparr>,
         \<lparr>Address = 0x1000, FileOffset = 0, FunctionOffset = 7, SourceLine = 0\<rparr>,
         \<lparr>Address = 0x2000, FileOffset = 0, FunctionOffset = 15, SourceLine = 0\<rparr>]"
  by (simp add: MergeStabsAndCoffs_def merge_loop.simps merge_step_def collapse_loop.simps
        coff_advance.simps coff_override_def nth_opt_def zero_entry_def insertion_qsort_def
        CompareSymEntry_def line0_first_def)

text \<open>
  The failure does not depend on the sort chosen for the evaluation: under the contract,
  any table that holds a row with a line and a row with line 0 at one address comes out
  with the lined row first.
\<close>

lemma line0_first_fails_for_any_qsort:
  assumes q: "qsort_contract qsort" and a: "a \<in> set xs" and b: "b \<in> set xs"
    and ab: "Address a = Address b" "SourceLine a \<noteq> 0" "SourceLine b = 0"
  shows "\<not> line0_first (qsort CompareSymEntry xs)"
proof
  let ?out = "qsort CompareSymEntry xs"
  assume lf: "line0_first ?out"
  from q have "mset ?out = mset xs" by (simp add: qsort_contract_def)
  then have "set ?out = set xs" by (rule mset_eq_setD)
  with a b obtain i j where i: "i < length ?out" "?out ! i = a"
    and j: "j < length ?out" "?out ! j = b"
    by (metis in_set_conv_nth)
  from ab i j have "i \<noteq> j" by auto
  then consider "i < j" | "j < i" by linarith
  then show False
  proof cases
    case 1
    from lf have "sorted_wrt (\<lambda>a b. Address a = Address b \<longrightarrow>
                    \<not> (SourceLine a \<noteq> 0 \<and> SourceLine b = 0)) ?out"
      by (simp add: line0_first_def)
    from sorted_wrt_nth_less [OF this 1 j(1)] i j ab show False by simp
  next
    case 2
    from qsort_contract_order [OF q, of xs]
    have "sorted_wrt (\<lambda>a b. Address a = Address b \<longrightarrow>
                    \<not> (SourceLine a = 0 \<and> SourceLine b \<noteq> 0)) ?out"
      by (simp add: line0_last_def)
    from sorted_wrt_nth_less [OF this 2 i(1)] i j ab show False by simp
  qed
qed

text \<open>
  C2, as the code has it. With no stab row the merger returns the empty table whatever
  the coff rows are, and the length of the \<^verbatim>\<open>.rossym\<close> section is 0: nothing is emitted
  for an image that has only COFF symbols.
\<close>

theorem merged_empty_without_stabs:
  "MergeStabsAndCoffs qsort [] Coffs = Inr []
   \<and> RosSymLength [] StringsLength = 0"
  by (simp add: MergeStabsAndCoffs_def RosSymLength_def)

text \<open>
  C3: the read of \<^verbatim>\<open>CoffSymbols[CoffIndex + 1]\<close> leaves the vector. One stab row at 0x1000
  and the coff vector of one accepted symbol at 0x500 (the cleared entry and the symbol,
  sorted): the loop steps to the last index and then reads one past it.
\<close>

theorem coff_advance_reads_past_end:
  "coff_advance
     [zero_entry, \<lparr>Address = 0x500, FileOffset = 0, FunctionOffset = 11, SourceLine = 0\<rparr>]
     0 0x1000 = Inl OutOfBounds
   \<and> MergeStabsAndCoffs insertion_qsort
       [\<lparr>Address = 0x1000, FileOffset = 1, FunctionOffset = 7, SourceLine = 10\<rparr>]
       [zero_entry, \<lparr>Address = 0x500, FileOffset = 0, FunctionOffset = 11, SourceLine = 0\<rparr>]
     = Inl OutOfBounds"
  by (simp add: MergeStabsAndCoffs_def merge_loop.simps merge_step_def collapse_loop.simps
        coff_advance.simps nth_opt_def zero_entry_def)

text \<open>
  More generally the loop reads past the end whenever no later coff row has an address
  above the current one.
\<close>

lemma coff_advance_out_of_bounds:
  assumes "i < length Coffs" and "\<forall>k. i < k \<and> k < length Coffs \<longrightarrow> Address (Coffs ! k) \<le> a"
  shows "coff_advance Coffs i a = Inl OutOfBounds"
  using assms
proof (induction Coffs i a rule: coff_advance.induct)
  case (1 Coffs i a)
  show ?case
  proof (cases "i + 1 < length Coffs")
    case True
    with "1.prems" have le: "Address (Coffs ! (i + 1)) \<le> a" by simp
    have "coff_advance Coffs (i + 1) a = Inl OutOfBounds"
    proof (rule "1.IH")
      show "i < length Coffs" by (rule "1.prems")
      show "nth_opt Coffs (i + 1) = Some (Coffs ! (i + 1))" using True by (simp add: nth_opt_def)
      show "Address (Coffs ! (i + 1)) \<le> a" by (rule le)
      show "i + 1 < length Coffs" by (rule True)
      show "\<forall>k. i + 1 < k \<and> k < length Coffs \<longrightarrow> Address (Coffs ! k) \<le> a"
        using "1.prems"(2) by auto
    qed
    with True le "1.prems"(1) show ?thesis
      by (simp add: coff_advance.simps [of Coffs i a] nth_opt_def)
  next
    case False
    with "1.prems"(1) show ?thesis
      by (simp add: coff_advance.simps [of Coffs i a] nth_opt_def)
  qed
qed

text \<open>The invariant of the outer loop: the merged stab rows have increasing addresses.\<close>

lemma fold_row_Address [simp]: "Address (fold_row M S) = Address M"
  by (simp add: fold_row_def Let_def)

lemma collapse_loop_spec:
  assumes "collapse_loop S i j M = (j', M')"
  shows "Address M' = Address M \<and> j \<le> j'
         \<and> (j' < length S \<longrightarrow> Address (S ! j') \<noteq> Address (S ! i))"
  using assms
proof (induction S i j M rule: collapse_loop.induct)
  case (1 S i j M)
  show ?case
  proof (cases "j < length S \<and> Address (S ! j) = Address (S ! i)")
    case True
    then have rec: "collapse_loop S i (j + 1) (fold_row M (S ! j)) = (j', M')"
      using "1.prems"(1) by (simp add: collapse_loop.simps [of S i j M])
    from "1.IH" [OF True rec] show ?thesis by simp
  next
    case False
    then have "j' = j" "M' = M"
      using "1.prems"(1) by (auto simp: collapse_loop.simps [of S i j M])
    with False show ?thesis by auto
  qed
qed

lemma coff_override_shape:
  assumes "coff_override Coffs ci a M = Inr (M', Coffs')"
  shows "Address M' = Address M \<and> SourceLine M' = SourceLine M
         \<and> ((\<forall>C \<in> set Coffs. SourceLine C = 0) \<longrightarrow> (\<forall>C \<in> set Coffs'. SourceLine C = 0))"
proof (cases "0 < length Coffs \<and> ci < length Coffs \<and> Address (Coffs ! ci) < Address M
              \<and> a < Address (Coffs ! ci) \<and> FunctionOffset (Coffs ! ci) \<noteq> 0")
  case True
  with assms have eq: "M' = M\<lparr>FunctionOffset := FunctionOffset (Coffs ! ci)\<rparr>"
    "Coffs' = Coffs[ci := (Coffs ! ci)\<lparr>FileOffset := 0, FunctionOffset := 0\<rparr>]"
    by (simp_all add: coff_override_def nth_opt_def)
  have "SourceLine C = 0"
    if all: "\<forall>C \<in> set Coffs. SourceLine C = 0" and C: "C \<in> set Coffs'" for C
  proof -
    from C eq
    have "C \<in> insert ((Coffs ! ci)\<lparr>FileOffset := 0, FunctionOffset := 0\<rparr>) (set Coffs)"
      using set_update_subset_insert [of Coffs ci] by blast
    with all True show ?thesis by auto
  qed
  with eq show ?thesis by simp
next
  case False
  with assms have "M' = M" "Coffs' = Coffs"
    by (auto simp: coff_override_def nth_opt_def split: if_splits)
  then show ?thesis by simp
qed

lemma merge_step_inv:
  assumes step: "merge_step S i st = Inr (j, st')" and i: "i < length S"
    and srt: "sorted (map Address S)" and inv: "merge_inv S i st"
  shows "merge_inv S j st'"
proof -
  obtain j0 M where cl: "collapse_loop S i (i + 1) (S ! i) = (j0, M)" by fastforce
  from step cl obtain ci M' Coffs where
    ov: "coff_override (CoffSymbols st) ci (StabFunctionStartAddress st) M = Inr (M', Coffs)"
    and j: "j = j0"
    and M': "MergedSymbols st' = MergedSymbols st @ [M']" and Cs: "CoffSymbols st' = Coffs"
    by (auto simp: merge_step_def split: sum.splits)
  note spec = collapse_loop_spec [OF cl]
  from spec have M: "Address M = Address (S ! i)" by simp
  from spec have jb: "i < j0" by simp
  from spec have nxt: "j0 < length S \<longrightarrow> Address (S ! j0) \<noteq> Address (S ! i)" by simp
  from coff_override_shape [OF ov] Cs have
    AM': "Address M' = Address M"
    and cf: "(\<forall>C \<in> set (CoffSymbols st). SourceLine C = 0)
              \<longrightarrow> (\<forall>C \<in> set (CoffSymbols st'). SourceLine C = 0)"
    by simp_all
  have lt: "Address (S ! i) < Address (S ! j0)" if "j0 < length S"
  proof -
    from srt jb that have "Address (S ! i) \<le> Address (S ! j0)"
      by (simp add: sorted_iff_nth_mono)
    with nxt that show ?thesis by simp
  qed
  have a: "sorted_wrt (\<lambda>a b. Address a < Address b) (MergedSymbols st')"
    using inv i M M' AM' by (auto simp: merge_inv_def sorted_wrt_append)
  have b: "\<forall>r \<in> set (MergedSymbols st'). Address r < Address (S ! j0)" if "j0 < length S"
    using inv i M M' AM' lt [OF that] by (auto simp: merge_inv_def)
  show ?thesis unfolding merge_inv_def j using a b cf inv by (auto simp: merge_inv_def)
qed

lemma merge_loop_inv:
  assumes "merge_loop S i st = Inr st'" and "sorted (map Address S)" and "merge_inv S i st"
  shows "merge_inv S (length S) st'"
  using assms
proof (induction S i st rule: merge_loop.induct)
  case (1 S i st)
  show ?case
  proof (cases "i < length S")
    case True
    with "1.prems"(1) obtain j st1 where
      step: "merge_step S i st = Inr (j, st1)" and rest: "merge_loop S j st1 = Inr st'"
      by (auto simp: merge_loop.simps [of S i st] split: sum.splits)
    from merge_step_inv [OF step True "1.prems"(2,3)] have "merge_inv S j st1" .
    from "1.IH" [OF True step refl rest "1.prems"(2) this] show ?thesis .
  next
    case False
    with "1.prems" show ?thesis
      by (auto simp: merge_loop.simps [of S i st] merge_inv_def)
  qed
qed

lemma coff_tail_subset: "set (coff_tail Cs) \<subseteq> set Cs"
  by (induction Cs) auto

lemma distinct_filter_nth:
  assumes "distinct (map f (filter P xs))" and "i < j" and "j < length xs"
    and "P (xs ! i)" and "P (xs ! j)"
  shows "f (xs ! i) \<noteq> f (xs ! j)"
  using assms
proof (induction xs arbitrary: i j)
  case Nil
  then show ?case by simp
next
  case (Cons x xs)
  from Cons.prems(2) obtain j' where j: "j = Suc j'" by (cases j) auto
  show ?case
  proof (cases i)
    case 0
    with Cons.prems j have "xs ! j' \<in> set (filter P xs)" "P x" by auto
    with Cons.prems(1) 0 j show ?thesis by (auto simp: image_iff)
  next
    case (Suc i')
    with Cons.prems j Cons.IH [of i' j'] show ?thesis by (auto split: if_splits)
  qed
qed

text \<open>
  C4. For a stab vector sorted by address and a coff vector whose rows all have line 0
  (as the COFF decoder produces them), no two distinct rows of the final table have the
  same address and the same non-zero line.
\<close>

theorem merged_no_duplicate_lines:
  assumes q: "qsort_contract qsort"
    and srt: "sorted (map Address StabSymbols)"
    and l0: "\<forall>C \<in> set Coffs. SourceLine C = 0"
    and run: "MergeStabsAndCoffs qsort StabSymbols Coffs = Inr out"
  shows "\<forall>i j. i < j \<and> j < length out \<longrightarrow>
           \<not> (Address (out ! i) = Address (out ! j) \<and> SourceLine (out ! i) = SourceLine (out ! j)
              \<and> SourceLine (out ! i) \<noteq> 0)"
proof -
  let ?P = "\<lambda>r. SourceLine r \<noteq> 0"
  from MergeStabsAndCoffs_cases [OF run] show ?thesis
  proof (elim disjE exE conjE)
    assume "out = []" then show ?thesis by simp
  next
    fix st
    let ?st0 = "\<lparr>MergedSymbols = [], CoffSymbols = Coffs, CoffIndex = 0,
                 StabFunctionStartAddress = 0, StabFunctionStringOffset = 0\<rparr>"
    assume loop: "merge_loop StabSymbols 0 ?st0 = Inr st"
      and out: "out = qsort CompareSymEntry (MergedSymbols st @ coff_tail (CoffSymbols st))"
    have "merge_inv StabSymbols 0 ?st0" using l0 by (simp add: merge_inv_def)
    from merge_loop_inv [OF loop srt this]
    have inc: "sorted_wrt (\<lambda>a b. Address a < Address b) (MergedSymbols st)"
      and c0: "\<forall>C \<in> set (CoffSymbols st). SourceLine C = 0"
      by (auto simp: merge_inv_def)
    have "sorted_wrt (<) (map Address (MergedSymbols st))"
      using inc by (simp add: sorted_wrt_map)
    then have "distinct (map Address (MergedSymbols st))"
      by (simp add: strict_sorted_iff)
    then have d: "distinct (map Address (filter ?P (MergedSymbols st)))"
      by (simp add: distinct_map_filter)
    have "filter ?P (coff_tail (CoffSymbols st)) = []"
      using c0 coff_tail_subset [of "CoffSymbols st"] by (auto simp: filter_empty_conv)
    then have pre:
      "distinct (map Address (filter ?P (MergedSymbols st @ coff_tail (CoffSymbols st))))"
      using d by simp
    have "mset out = mset (MergedSymbols st @ coff_tail (CoffSymbols st))"
      using q out by (simp add: qsort_contract_def)
    then have "mset (map Address (filter ?P out))
             = mset (map Address (filter ?P (MergedSymbols st @ coff_tail (CoffSymbols st))))"
      by (simp only: mset_map mset_filter)
    from mset_eq_imp_distinct_iff [OF this] pre
    have dout: "distinct (map Address (filter ?P out))" by simp
    show ?thesis
    proof (intro allI impI notI)
      fix i j
      assume ij: "i < j \<and> j < length out"
        and eq: "Address (out ! i) = Address (out ! j)
                 \<and> SourceLine (out ! i) = SourceLine (out ! j) \<and> SourceLine (out ! i) \<noteq> 0"
      from eq have "SourceLine (out ! i) \<noteq> 0" "SourceLine (out ! j) \<noteq> 0" by auto
      with distinct_filter_nth [OF dout, of i j] ij
      have "Address (out ! i) \<noteq> Address (out ! j)" by simp
      with eq show False by simp
    qed
  qed
qed

theorem merged_no_duplicate_lines_witness:
  "sorted (map Address
       [\<lparr>Address = 0x1000, FileOffset = 1, FunctionOffset = 0, SourceLine = 0\<rparr>,
        \<lparr>Address = 0x1000, FileOffset = 0, FunctionOffset = 7, SourceLine = 10\<rparr>,
        \<lparr>Address = 0x1010, FileOffset = 1, FunctionOffset = 7, SourceLine = 11\<rparr>])
   \<and> MergeStabsAndCoffs insertion_qsort
       [\<lparr>Address = 0x1000, FileOffset = 1, FunctionOffset = 0, SourceLine = 0\<rparr>,
        \<lparr>Address = 0x1000, FileOffset = 0, FunctionOffset = 7, SourceLine = 10\<rparr>,
        \<lparr>Address = 0x1010, FileOffset = 1, FunctionOffset = 7, SourceLine = 11\<rparr>]
       [zero_entry,
        \<lparr>Address = 0x1000, FileOffset = 0, FunctionOffset = 7, SourceLine = 0\<rparr>,
        \<lparr>Address = 0x2000, FileOffset = 0, FunctionOffset = 15, SourceLine = 0\<rparr>]
     = Inr [\<lparr>Address = 0x1000, FileOffset = 1, FunctionOffset = 7, SourceLine = 10\<rparr>,
            \<lparr>Address = 0x1000, FileOffset = 0, FunctionOffset = 7, SourceLine = 0\<rparr>,
            \<lparr>Address = 0x1010, FileOffset = 1, FunctionOffset = 7, SourceLine = 11\<rparr>,
            \<lparr>Address = 0x2000, FileOffset = 0, FunctionOffset = 15, SourceLine = 0\<rparr>]
   \<and> \<not> (Address \<lparr>Address = 0x1000, FileOffset = 1, FunctionOffset = 7, SourceLine = 10\<rparr>
          = Address \<lparr>Address = 0x1000, FileOffset = 0, FunctionOffset = 7, SourceLine = 0\<rparr>
        \<and> SourceLine \<lparr>Address = 0x1000, FileOffset = 1, FunctionOffset = 7, SourceLine = 10\<rparr>
          = SourceLine \<lparr>Address = 0x1000, FileOffset = 0, FunctionOffset = 7, SourceLine = 0\<rparr>
        \<and> SourceLine \<lparr>Address = 0x1000, FileOffset = 1, FunctionOffset = 7, SourceLine = 10\<rparr>
          \<noteq> 0)"
proof -
  let ?S = "[\<lparr>Address = 0x1000, FileOffset = 1, FunctionOffset = 0, SourceLine = 0\<rparr>,
        \<lparr>Address = 0x1000, FileOffset = 0, FunctionOffset = 7, SourceLine = 10\<rparr>,
        \<lparr>Address = 0x1010, FileOffset = 1, FunctionOffset = 7, SourceLine = 11\<rparr>]"
  let ?C = "[zero_entry,
        \<lparr>Address = 0x1000, FileOffset = 0, FunctionOffset = 7, SourceLine = 0\<rparr>,
        \<lparr>Address = 0x2000, FileOffset = 0, FunctionOffset = 15, SourceLine = 0\<rparr>]"
  let ?out = "[\<lparr>Address = 0x1000, FileOffset = 1, FunctionOffset = 7, SourceLine = 10\<rparr>,
            \<lparr>Address = 0x1000, FileOffset = 0, FunctionOffset = 7, SourceLine = 0\<rparr>,
            \<lparr>Address = 0x1010, FileOffset = 1, FunctionOffset = 7, SourceLine = 11\<rparr>,
            \<lparr>Address = 0x2000, FileOffset = 0, FunctionOffset = 15, SourceLine = 0\<rparr>]"
  have srt: "sorted (map Address ?S)" by simp
  have l0: "\<forall>C \<in> set ?C. SourceLine C = 0" by (simp add: zero_entry_def)
  have run: "MergeStabsAndCoffs insertion_qsort ?S ?C = Inr ?out"
    by (simp add: MergeStabsAndCoffs_def merge_loop.simps merge_step_def collapse_loop.simps
          coff_advance.simps coff_override_def nth_opt_def zero_entry_def insertion_qsort_def
          CompareSymEntry_def fold_row_def)
  have ij: "(0::nat) < 1 \<and> 1 < length ?out" by simp
  note inst = merged_no_duplicate_lines [OF insertion_qsort_contract srt l0 run, rule_format, OF ij]
  from inst srt run show ?thesis by simp
qed

text \<open>
  When does the merger return a table? The advance loop stays inside the coff vector as
  soon as some later coff row lies above the current address (for instance the symbol
  that marks the end of the image), and then the whole merge goes through.
\<close>

lemma coff_advance_stops:
  assumes "i < k" and "k < length Coffs" and "a < Address (Coffs ! k)"
  shows "\<exists>ci. coff_advance Coffs i a = Inr ci \<and> ci < k"
  using assms
proof (induction "k - i" arbitrary: i rule: less_induct)
  case less
  from less.prems have i: "i < length Coffs" and nx: "nth_opt Coffs (i + 1) = Some (Coffs ! (i + 1))"
    by (simp_all add: nth_opt_def)
  show ?case
  proof (cases "Address (Coffs ! (i + 1)) \<le> a")
    case True
    with less.prems(3) have "i + 1 \<noteq> k" by auto
    with less.prems(1) have lt: "i + 1 < k" by simp
    then have "k - (i + 1) < k - i" by simp
    from less.hyps [OF this lt less.prems(2,3)] i nx True show ?thesis
      by (simp add: coff_advance.simps [of Coffs i a])
  next
    case False
    with i nx less.prems(1) show ?thesis
      by (simp add: coff_advance.simps [of Coffs i a])
  qed
qed

lemma coff_override_keeps:
  assumes "ci < k" and "k < length Coffs"
  shows "\<exists>M' Coffs'. coff_override Coffs ci a M = Inr (M', Coffs')
           \<and> length Coffs' = length Coffs \<and> Coffs' ! k = Coffs ! k"
  using assms by (simp add: coff_override_def nth_opt_def)

lemma merge_step_returns:
  assumes k: "k < length (CoffSymbols st)" and ci: "CoffIndex st < k"
    and i: "i < length S"
    and above: "\<forall>s \<in> set S. Address s < Address (CoffSymbols st ! k)"
  shows "\<exists>j st'. merge_step S i st = Inr (j, st') \<and> k < length (CoffSymbols st')
           \<and> CoffIndex st' < k \<and> CoffSymbols st' ! k = CoffSymbols st ! k"
proof -
  obtain j M where cl: "collapse_loop S i (i + 1) (S ! i) = (j, M)" by fastforce
  from collapse_loop_spec [OF cl] have "Address M = Address (S ! i)" by simp
  with above i have "Address M < Address (CoffSymbols st ! k)" by simp
  from coff_advance_stops [OF ci k this] obtain c where
    adv: "coff_advance (CoffSymbols st) (CoffIndex st) (Address M) = Inr c" and c: "c < k"
    by blast
  from coff_override_keeps [OF c k, of "StabFunctionStartAddress st" M] obtain M' Coffs' where
    "coff_override (CoffSymbols st) c (StabFunctionStartAddress st) M = Inr (M', Coffs')"
    "length Coffs' = length (CoffSymbols st)" "Coffs' ! k = CoffSymbols st ! k"
    by blast
  with cl adv c k show ?thesis by (simp add: merge_step_def)
qed

lemma merge_loop_returns:
  assumes "k < length (CoffSymbols st)" and "CoffIndex st < k"
    and "\<forall>s \<in> set S. Address s < Address (CoffSymbols st ! k)"
  shows "\<exists>st'. merge_loop S i st = Inr st'"
  using assms
proof (induction S i st rule: merge_loop.induct)
  case (1 S i st)
  show ?case
  proof (cases "i < length S")
    case True
    from merge_step_returns [OF "1.prems"(1,2) True "1.prems"(3)] obtain j st1 where
      step: "merge_step S i st = Inr (j, st1)" and k1: "k < length (CoffSymbols st1)"
      and c1: "CoffIndex st1 < k" and same: "CoffSymbols st1 ! k = CoffSymbols st ! k"
      by blast
    from "1.prems"(3) same have "\<forall>s \<in> set S. Address s < Address (CoffSymbols st1 ! k)"
      by simp
    from "1.IH" [OF True step refl k1 c1 this] True step show ?thesis
      by (simp add: merge_loop.simps [of S i st])
  next
    case False
    then show ?thesis by (simp add: merge_loop.simps [of S i st])
  qed
qed

lemma MergeStabsAndCoffs_returns:
  assumes "0 < k" and "k < length Coffs" and "\<forall>s \<in> set S. Address s < Address (Coffs ! k)"
  shows "\<exists>out. MergeStabsAndCoffs qsort S Coffs = Inr out"
proof -
  let ?st0 = "\<lparr>MergedSymbols = [], CoffSymbols = Coffs, CoffIndex = 0,
               StabFunctionStartAddress = 0, StabFunctionStringOffset = 0\<rparr>"
  from assms have "\<exists>st'. merge_loop S 0 ?st0 = Inr st'"
    by (intro merge_loop_returns [of k]) simp_all
  then show ?thesis by (auto simp: MergeStabsAndCoffs_def)
qed

section \<open>The STABS decoder\<close>

lemma last_upd_Current [simp]: "last (upd_Current f rows) = f (last rows)"
  by (simp add: upd_Current_def)

lemma cstr_at_no_NUL: "cstr_at mem p = Some s \<Longrightarrow> NUL \<notin> set s"
  by (auto simp: cstr_at_def split: if_splits dest: set_takeWhileD)

text \<open>
  Widening a 32-bit address to \<^verbatim>\<open>ULONG_PTR\<close> and taking the low 32 bits gives it back, as
  \<^verbatim>\<open>ULONG_PTR\<close> has at least 32 bits.
\<close>

lemma ucast_field:
  "32 \<le> LENGTH('p::len) \<Longrightarrow> (ucast (ucast (x :: 32 word) :: 'p word) :: 32 word) = x"
  by (simp add: ucast_up_ucast_id is_up)

lemma stab_SO_address:
  fixes Addr :: "'p::len word"
  assumes "32 \<le> LENGTH('p)"
    and "stab_SO ImageBase StabStrings st e Addr = Inr st'"
    and "\<not> length StabStrings < unat (n_strx e)"
    and "cstr_at StabStrings (unat (n_strx e)) = Some Name"
    and "\<not> (Name = [] \<or> last Name = CHR ''/'' \<or> last Name = CHR 0x5C
            \<or> ucast (n_value e) < ImageBase)"
  shows "Address (last (SymbolsBase st')) = ucast Addr"
  using assms(2-) ucast_field [OF assms(1)]
  by (auto simp: stab_SO_def Let_def split: prod.splits if_splits)

lemma stab_FUN_address:
  fixes Addr :: "'p::len word"
  assumes "32 \<le> LENGTH('p)"
    and "stab_FUN ImageBase StabStrings st e Addr = Inr st'"
    and "\<not> (n_desc e = 0 \<or> ucast (n_value e) < ImageBase)"
  shows "Address (last (SymbolsBase st')) = ucast Addr \<and> LastFunctionAddress st' = Addr"
  using assms(2-) ucast_field [OF assms(1)]
  by (auto simp: stab_FUN_def Let_def split: prod.splits if_splits option.splits)

lemma stab_SLINE_address:
  fixes Addr :: "'p::len word"
  assumes "32 \<le> LENGTH('p)"
    and "stab_SLINE st e Addr = Inr st'"
  shows "Address (last (SymbolsBase st')) = ucast Addr"
  using assms(2-) ucast_field [OF assms(1)]
  by (auto simp: stab_SLINE_def Let_def split: if_splits)

text \<open>
  C7. Every record that writes a row writes it at the derived address, computed in
  \<^verbatim>\<open>ULONG_PTR\<close> arithmetic of whatever width (at least 32 bits): \<open>n_value\<close> minus the
  image base when no function is open (\<open>LastFunctionAddress\<close> is 0), the start of the
  open function plus \<open>n_value\<close> otherwise. The row holds the low 32 bits of that address;
  a function-start record also makes the address, at its full width, the new
  \<open>LastFunctionAddress\<close>.
\<close>

theorem stab_step_row_address:
  fixes ImageBase :: "'p::len word"
  assumes "32 \<le> LENGTH('p)"
    and "stab_step h ImageBase StabStrings st e = Inr st'"
    and "stab_emits h ImageBase StabStrings e"
  shows "Address (last (SymbolsBase st'))
           = ucast (if LastFunctionAddress st = 0 then ucast (n_value e) - ImageBase
                    else LastFunctionAddress st + ucast (n_value e))
         \<and> (n_type e = N_FUN h \<and> n_type e \<noteq> N_SO h \<and> n_type e \<noteq> N_SOL h \<and> n_type e \<noteq> N_BINCL h
              \<longrightarrow> LastFunctionAddress st'
                    = (if LastFunctionAddress st = 0 then ucast (n_value e) - ImageBase
                       else LastFunctionAddress st + ucast (n_value e)))"
proof -
  let ?A = "stab_address ImageBase (LastFunctionAddress st) e"
  have A: "?A = (if LastFunctionAddress st = 0 then ucast (n_value e) - ImageBase
                 else LastFunctionAddress st + ucast (n_value e))"
    by (simp add: stab_address_def)
  consider (so) "n_type e = N_SO h \<or> n_type e = N_SOL h \<or> n_type e = N_BINCL h"
    | (fn) "\<not> (n_type e = N_SO h \<or> n_type e = N_SOL h \<or> n_type e = N_BINCL h)"
           "n_type e = N_FUN h"
    | (sl) "\<not> (n_type e = N_SO h \<or> n_type e = N_SOL h \<or> n_type e = N_BINCL h)"
           "n_type e \<noteq> N_FUN h" "n_type e = N_SLINE h"
    | (other) "\<not> (n_type e = N_SO h \<or> n_type e = N_SOL h \<or> n_type e = N_BINCL h)"
           "n_type e \<noteq> N_FUN h" "n_type e \<noteq> N_SLINE h"
    by blast
  then show ?thesis
  proof cases
    case so
    with assms(2) have step: "stab_SO ImageBase StabStrings st e ?A = Inr st'"
      by (simp add: stab_step_def)
    from so assms(3) obtain Name where
      "\<not> length StabStrings < unat (n_strx e)"
      "cstr_at StabStrings (unat (n_strx e)) = Some Name"
      "\<not> (Name = [] \<or> last Name = CHR ''/'' \<or> last Name = CHR 0x5C
          \<or> ucast (n_value e) < ImageBase)"
      by (auto simp: stab_emits_def split: option.splits)
    from stab_SO_address [OF assms(1) step this] so show ?thesis
      unfolding A by auto
  next
    case fn
    with assms(2) have step: "stab_FUN ImageBase StabStrings st e ?A = Inr st'"
      by (simp add: stab_step_def)
    from fn assms(3) have "\<not> (n_desc e = 0 \<or> ucast (n_value e) < ImageBase)"
      by (simp add: stab_emits_def)
    from stab_FUN_address [OF assms(1) step this] show ?thesis
      unfolding A by simp
  next
    case sl
    with assms(2) have step: "stab_SLINE st e ?A = Inr st'"
      by (simp add: stab_step_def)
    from stab_SLINE_address [OF assms(1) step] sl show ?thesis
      unfolding A by simp
  next
    case other
    with assms(3) show ?thesis by (simp add: stab_emits_def)
  qed
qed

theorem stab_step_row_address_witness:
  "32 \<le> LENGTH(64)
   \<and> stab_emits std_rsym_h (0x400000 :: 64 word) []
       \<lparr>n_strx = 0, n_type = 0x44, n_other = 0, n_desc = 10, n_value = 0x10\<rparr>
   \<and> stab_step std_rsym_h (0x400000 :: 64 word) []
       \<lparr>First = False,
        SymbolsBase = [\<lparr>Address = 0x1000, FileOffset = 1, FunctionOffset = 7, SourceLine = 0\<rparr>,
                       \<lparr>Address = 0, FileOffset = 1, FunctionOffset = 1, SourceLine = 0\<rparr>],
        LastFunctionAddress = 0x100000000, StringHash = seeded_table, StringsBase = [NUL]\<rparr>
       \<lparr>n_strx = 0, n_type = 0x44, n_other = 0, n_desc = 10, n_value = 0x10\<rparr>
     = Inr \<lparr>First = False,
            SymbolsBase = [\<lparr>Address = 0x1000, FileOffset = 1, FunctionOffset = 7, SourceLine = 0\<rparr>,
                           \<lparr>Address = 0, FileOffset = 1, FunctionOffset = 1, SourceLine = 0\<rparr>,
                           \<lparr>Address = 0x10, FileOffset = 1, FunctionOffset = 1, SourceLine = 10\<rparr>],
            LastFunctionAddress = 0x100000000, StringHash = seeded_table, StringsBase = [NUL]\<rparr>
   \<and> Address (last [\<lparr>Address = 0x1000, FileOffset = 1, FunctionOffset = 7, SourceLine = 0\<rparr>,
                     \<lparr>Address = 0, FileOffset = 1, FunctionOffset = 1, SourceLine = 0\<rparr>,
                     \<lparr>Address = 0x10, FileOffset = 1, FunctionOffset = 1, SourceLine = 10\<rparr>])
     = ucast ((0x100000000 :: 64 word) + ucast (0x10 :: 32 word))"
proof -
  let ?e = "\<lparr>n_strx = 0, n_type = 0x44, n_other = 0, n_desc = 10, n_value = 0x10\<rparr>"
  let ?st = "\<lparr>First = False,
        SymbolsBase = [\<lparr>Address = 0x1000, FileOffset = 1, FunctionOffset = 7, SourceLine = 0\<rparr>,
                       \<lparr>Address = 0, FileOffset = 1, FunctionOffset = 1, SourceLine = 0\<rparr>],
        LastFunctionAddress = 0x100000000 :: 64 word, StringHash = seeded_table,
        StringsBase = [NUL]\<rparr>"
  let ?st' = "\<lparr>First = False,
            SymbolsBase = [\<lparr>Address = 0x1000, FileOffset = 1, FunctionOffset = 7, SourceLine = 0\<rparr>,
                           \<lparr>Address = 0, FileOffset = 1, FunctionOffset = 1, SourceLine = 0\<rparr>,
                           \<lparr>Address = 0x10, FileOffset = 1, FunctionOffset = 1, SourceLine = 10\<rparr>],
            LastFunctionAddress = 0x100000000 :: 64 word, StringHash = seeded_table,
            StringsBase = [NUL]\<rparr>"
  have w: "32 \<le> LENGTH(64)" by simp
  have em: "stab_emits std_rsym_h (0x400000 :: 64 word) [] ?e"
    by (simp add: stab_emits_def std_rsym_h_def)
  have step: "stab_step std_rsym_h (0x400000 :: 64 word) [] ?st ?e = Inr ?st'"
    by (simp add: stab_step_def std_rsym_h_def stab_address_def stab_SLINE_def Let_def
          upd_Current_def zero_entry_def)
  from stab_step_row_address [OF w step em] em step show ?thesis by simp
qed

text \<open>
  How rows and a function start like those of that run come about on a host with 64-bit
  pointers: inside the
  function at 0x1000 a function-start record with \<open>n_value\<close> 0xFFFFF000. The address is
  0x100000000; the row gets its low 32 bits, 0, and \<open>LastFunctionAddress\<close> keeps the
  full value, which is not 0, so the following records stay relative to it. With 32-bit
  pointers the sum wraps to 0 and the next record is taken relative to the image base.
\<close>

lemma nested_function_start_64:
  "(case stab_step std_rsym_h (0x400000 :: 64 word) (''baz:F'' @ [NUL])
           \<lparr>First = False,
            SymbolsBase = [\<lparr>Address = 0x1000, FileOffset = 1, FunctionOffset = 7,
                             SourceLine = 0\<rparr>],
            LastFunctionAddress = 0x1000, StringHash = seeded_table, StringsBase = [NUL]\<rparr>
           \<lparr>n_strx = 0, n_type = 0x24, n_other = 0, n_desc = 1, n_value = 0xFFFFF000\<rparr> of
      Inl err \<Rightarrow> False
    | Inr st' \<Rightarrow>
        SymbolsBase st' =
          [\<lparr>Address = 0x1000, FileOffset = 1, FunctionOffset = 7, SourceLine = 0\<rparr>,
           \<lparr>Address = 0, FileOffset = 1, FunctionOffset = 1, SourceLine = 0\<rparr>]
        \<and> LastFunctionAddress st' = 0x100000000)"
  by (simp add: stab_step_def std_rsym_h_def stab_address_def stab_FUN_def Let_def
        upd_Current_def zero_entry_def cstr_at_def NUL_def FindOrAddString_def bucket_of_def
        ComputeDJBHash_def char_to_uint_def seeded_table_def AddStringToHash_def)

lemma nested_function_start_32:
  "(case stab_step std_rsym_h (0x400000 :: 32 word) (''baz:F'' @ [NUL])
           \<lparr>First = False,
            SymbolsBase = [\<lparr>Address = 0x1000, FileOffset = 1, FunctionOffset = 7,
                             SourceLine = 0\<rparr>],
            LastFunctionAddress = 0x1000, StringHash = seeded_table, StringsBase = [NUL]\<rparr>
           \<lparr>n_strx = 0, n_type = 0x24, n_other = 0, n_desc = 1, n_value = 0xFFFFF000\<rparr> of
      Inl err \<Rightarrow> False
    | Inr st' \<Rightarrow>
        SymbolsBase st' =
          [\<lparr>Address = 0x1000, FileOffset = 1, FunctionOffset = 7, SourceLine = 0\<rparr>,
           \<lparr>Address = 0, FileOffset = 1, FunctionOffset = 1, SourceLine = 0\<rparr>]
        \<and> LastFunctionAddress st' = 0)"
  by (simp add: stab_step_def std_rsym_h_def stab_address_def stab_FUN_def Let_def
        upd_Current_def zero_entry_def cstr_at_def NUL_def FindOrAddString_def bucket_of_def
        ComputeDJBHash_def char_to_uint_def seeded_table_def AddStringToHash_def)

text \<open>
  The second scenario of the specification, run through the decoder: a source file
  \<open>foo.c\<close>, a function \<open>bar\<close> at 0x1000 and a line 10 at offset 0 give the single row
  \<open>{0x1000, off(foo.c), off(bar), 10}\<close>, with 64-bit and with 32-bit pointers.
\<close>

lemma ConvertStabs_scenario:
  "ConvertStabs insertion_qsort std_rsym_h [NUL]
     [\<lparr>n_strx = 1, n_type = 0x64, n_other = 0, n_desc = 0, n_value = 0x401000\<rparr>,
      \<lparr>n_strx = 7, n_type = 0x24, n_other = 0, n_desc = 1, n_value = 0x401000\<rparr>,
      \<lparr>n_strx = 0, n_type = 0x44, n_other = 0, n_desc = 10, n_value = 0\<rparr>]
     (NUL # ''foo.c'' @ NUL # ''bar:F'' @ [NUL]) (0x400000 :: 64 word)
   = Inr ([\<lparr>Address = 0x1000, FileOffset = 1, FunctionOffset = 7, SourceLine = 10\<rparr>],
          NUL # ''foo.c'' @ NUL # ''bar'' @ [NUL])
   \<and> ConvertStabs insertion_qsort std_rsym_h [NUL]
     [\<lparr>n_strx = 1, n_type = 0x64, n_other = 0, n_desc = 0, n_value = 0x401000\<rparr>,
      \<lparr>n_strx = 7, n_type = 0x24, n_other = 0, n_desc = 1, n_value = 0x401000\<rparr>,
      \<lparr>n_strx = 0, n_type = 0x44, n_other = 0, n_desc = 10, n_value = 0\<rparr>]
     (NUL # ''foo.c'' @ NUL # ''bar:F'' @ [NUL]) (0x400000 :: 32 word)
   = Inr ([\<lparr>Address = 0x1000, FileOffset = 1, FunctionOffset = 7, SourceLine = 10\<rparr>],
          NUL # ''foo.c'' @ NUL # ''bar'' @ [NUL])"
  by (simp add: ConvertStabs_def StringHashTableInit_def stab_step_def
        std_rsym_h_def stab_address_def stab_SO_def stab_FUN_def stab_SLINE_def Let_def
        upd_Current_def zero_entry_def cstr_at_def NUL_def FindOrAddString_def bucket_of_def
        ComputeDJBHash_def char_to_uint_def AddStringToHash_def insertion_qsort_def)

text \<open>
  C5. A function-start record (type \<open>N_FUN\<close>, non-zero \<open>n_desc\<close>, \<open>n_value\<close> not below
  the image base) whose string lies inside \<^verbatim>\<open>.stabstr\<close>, met after the first row has been
  started: the decoder fails with \<open>NameTooLong\<close> exactly when the prefix of the string up
  to the first colon is longer than 255 bytes; otherwise the step succeeds and the
  function offset of the current row is an offset at which that prefix is recorded.
\<close>

theorem stab_function_name_too_long:
  assumes "n_type e = N_FUN h"
    and "n_type e \<noteq> N_SO h \<and> n_type e \<noteq> N_SOL h \<and> n_type e \<noteq> N_BINCL h"
    and "n_desc e \<noteq> 0" and "ImageBase \<le> ucast (n_value e)"
    and "\<not> First st"
    and "cstr_at StabStrings (unat (n_strx e)) = Some Name"
  shows "(stab_step h ImageBase StabStrings st e = Inl NameTooLong
            \<longleftrightarrow> 255 < length (takeWhile (\<lambda>c. c \<noteq> CHR '':'') Name))
       \<and> (length (takeWhile (\<lambda>c. c \<noteq> CHR '':'') Name) \<le> 255 \<longrightarrow>
            (\<exists>st'. stab_step h ImageBase StabStrings st e = Inr st'
                  \<and> recorded (StringHash st') (StringsBase st')
                       (FunctionOffset (last (SymbolsBase st')))
                       (takeWhile (\<lambda>c. c \<noteq> CHR '':'') Name)))"
proof -
  let ?A = "stab_address ImageBase (LastFunctionAddress st) e"
  let ?F = "takeWhile (\<lambda>c. c \<noteq> CHR '':'') Name"
  have step: "stab_step h ImageBase StabStrings st e = stab_FUN ImageBase StabStrings st e ?A"
    using assms(1,2) by (simp add: stab_step_def)
  have tk: "take (length ?F) Name = ?F"
    by (simp add: takeWhile_eq_take [symmetric])
  have nul: "NUL \<notin> set ?F"
    using cstr_at_no_NUL [OF assms(6)] by (auto dest: set_takeWhileD)
  have nlt: "\<not> ucast (n_value e) < ImageBase" using assms(4) by (simp add: not_less)
  have long: "stab_FUN ImageBase StabStrings st e ?A = Inl NameTooLong" if "255 < length ?F"
    using that assms(3,5,6) nlt by (simp add: stab_FUN_def Let_def)
  have short: "\<exists>st'. stab_FUN ImageBase StabStrings st e ?A = Inr st'
                  \<and> recorded (StringHash st') (StringsBase st')
                       (FunctionOffset (last (SymbolsBase st'))) ?F"
    if le: "length ?F \<le> 255"
  proof -
    obtain off T b where f: "FindOrAddString (StringHash st) ?F (StringsBase st) = (off, T, b)"
      by (cases "FindOrAddString (StringHash st) ?F (StringsBase st)") auto
    from FindOrAddString_recorded [OF nul f] have r: "recorded T b off ?F" .
    from le have nl: "\<not> 256 \<le> length ?F" by simp
    show ?thesis
    proof (cases "?A \<noteq> ucast (Address (last (SymbolsBase st)))")
      case True
      with assms(3,5,6) nlt nl f tk r show ?thesis
        by (simp add: stab_FUN_def Let_def)
    next
      case False
      with assms(3,5,6) nlt nl f tk r show ?thesis
        by (simp add: stab_FUN_def Let_def)
    qed
  qed
  from long short step show ?thesis
    by (cases "255 < length ?F") auto
qed

theorem stab_function_name_too_long_witness:
  "stab_step std_rsym_h (0x400000 :: 64 word) (replicate 256 (CHR ''a'') @ '':F'' @ [NUL])
       \<lparr>First = False,
        SymbolsBase = [\<lparr>Address = 0x1000, FileOffset = 1, FunctionOffset = 0, SourceLine = 0\<rparr>],
        LastFunctionAddress = 0, StringHash = seeded_table, StringsBase = [NUL]\<rparr>
       \<lparr>n_strx = 0, n_type = 0x24, n_other = 0, n_desc = 1, n_value = 0x401000\<rparr>
     = Inl NameTooLong
   \<and> stab_step std_rsym_h (0x400000 :: 64 word) (replicate 255 (CHR ''a'') @ '':F'' @ [NUL])
       \<lparr>First = False,
        SymbolsBase = [\<lparr>Address = 0x1000, FileOffset = 1, FunctionOffset = 0, SourceLine = 0\<rparr>],
        LastFunctionAddress = 0, StringHash = seeded_table, StringsBase = [NUL]\<rparr>
       \<lparr>n_strx = 0, n_type = 0x24, n_other = 0, n_desc = 1, n_value = 0x401000\<rparr>
     \<noteq> Inl NameTooLong"
proof -
  let ?e = "\<lparr>n_strx = 0, n_type = 0x24, n_other = 0, n_desc = 1, n_value = 0x401000\<rparr>"
  let ?st = "\<lparr>First = False,
        SymbolsBase = [\<lparr>Address = 0x1000, FileOffset = 1, FunctionOffset = 0, SourceLine = 0\<rparr>],
        LastFunctionAddress = 0, StringHash = seeded_table, StringsBase = [NUL]\<rparr>"
  have ty: "n_type ?e = N_FUN std_rsym_h"
    "n_type ?e \<noteq> N_SO std_rsym_h \<and> n_type ?e \<noteq> N_SOL std_rsym_h \<and> n_type ?e \<noteq> N_BINCL std_rsym_h"
    "n_desc ?e \<noteq> 0" "(0x400000 :: 64 word) \<le> ucast (n_value ?e)" "\<not> First ?st"
    by (simp_all add: std_rsym_h_def)
  have nn: "NUL \<notin> set (replicate n (CHR ''a'') @ '':F'')" for n
    by (auto simp: NUL_def)
  have cs: "cstr_at (replicate n (CHR ''a'') @ '':F'' @ [NUL]) (unat (n_strx ?e))
            = Some (replicate n (CHR ''a'') @ '':F'')" for n
    using cstr_at_end [OF nn, of "[]" n] by simp
  have tw: "takeWhile (\<lambda>c. c \<noteq> CHR '':'') (replicate n (CHR ''a'') @ '':F'')
            = replicate n (CHR ''a'')" for n
    by (induction n) simp_all
  from stab_function_name_too_long [OF ty cs [of 256]] tw [of 256]
  have a: "stab_step std_rsym_h (0x400000 :: 64 word)
             (replicate 256 (CHR ''a'') @ '':F'' @ [NUL]) ?st ?e
           = Inl NameTooLong"
    by simp
  from stab_function_name_too_long [OF ty cs [of 255]] tw [of 255]
  have b: "stab_step std_rsym_h (0x400000 :: 64 word)
             (replicate 255 (CHR ''a'') @ '':F'' @ [NUL]) ?st ?e
           \<noteq> Inl NameTooLong"
    by simp
  from a b show ?thesis by simp
qed

section \<open>The COFF decoder\<close>

text \<open>
  The loop adds one row per accepted record; every row it adds has file offset 0 and
  line 0; and when it has added a row and returns, the rows are fewer than the records:
  the slot cleared after the last row lies inside the array.
\<close>

lemma coff_loop_rows:
  assumes "coff_loop h N PES CS CE i (rows, T, b) = Inr (rows', T', b')"
  shows "\<exists>new. rows' = rows @ new \<and> length new = length (coff_accepted h CE i)
               \<and> (\<forall>r \<in> set new. FileOffset r = 0 \<and> SourceLine r = 0)
               \<and> (new \<noteq> [] \<longrightarrow> length rows' < length CE)"
  using assms
proof (induction "length CE - i" arbitrary: i rows T b rule: less_induct)
  case less
  show ?case
  proof (cases "i < length CE")
    case False
    with less.prems show ?thesis
      by (simp add: coff_loop.simps [of h N PES CS CE i] coff_accepted.simps [of h CE i])
  next
    case True
    let ?E = "CE ! i"
    let ?next = "i + unat (e_numaux ?E) + 1"
    have dec: "length CE - ?next < length CE - i" using True by simp
    show ?thesis
    proof (cases "ISFCN h (e_type ?E) \<or> C_EXT h = e_sclass ?E")
      case False
      with True less.prems
      have "coff_loop h N PES CS CE ?next (rows, T, b) = Inr (rows', T', b')"
        by (simp add: coff_loop.simps [of h N PES CS CE i] Let_def)
      from less.hyps [OF dec this] False True show ?thesis
        by (simp add: coff_accepted.simps [of h CE i] Let_def)
    next
      case acc: True
      with True less.prems obtain Addr FuncName off T1 b1 where
        rec: "coff_loop h N PES CS CE ?next
                (rows @ [\<lparr>Address = Addr, FileOffset = 0, FunctionOffset = off, SourceLine = 0\<rparr>],
                 T1, b1) = Inr (rows', T', b')"
        and room: "Suc (length rows) < length CE"
        by (auto simp: coff_loop.simps [of h N PES CS CE i] Let_def
                 split: sum.splits prod.splits if_splits)
      from less.hyps [OF dec rec] obtain new where
        new: "rows' = (rows @ [\<lparr>Address = Addr, FileOffset = 0, FunctionOffset = off,
                                 SourceLine = 0\<rparr>]) @ new"
          "length new = length (coff_accepted h CE ?next)"
          "\<forall>r \<in> set new. FileOffset r = 0 \<and> SourceLine r = 0"
          "new \<noteq> [] \<longrightarrow> length rows' < length CE"
        by blast
      let ?new = "\<lparr>Address = Addr, FileOffset = 0, FunctionOffset = off, SourceLine = 0\<rparr> # new"
      have "rows' = rows @ ?new" using new(1) by simp
      moreover have "length ?new = length (coff_accepted h CE i)"
        using new(2) acc True by (simp add: coff_accepted.simps [of h CE i] Let_def)
      moreover have "\<forall>r \<in> set ?new. FileOffset r = 0 \<and> SourceLine r = 0"
        using new(3) by simp
      moreover have "length rows' < length CE"
        using new(1,4) room by (cases "new = []") simp_all
      ultimately show ?thesis by blast
    qed
  qed
qed

lemma ConvertCoffs_array_shape:
  assumes "ConvertCoffs_array h uninit Strings0 CoffEntry CoffStrings N PES = Inr (Array, b')"
  shows "\<exists>rows. Array = rows @ [if rows = [] then uninit else zero_entry]
              \<and> length rows = length (coff_accepted h CoffEntry 0)
              \<and> (\<forall>r \<in> set rows. FileOffset r = 0 \<and> SourceLine r = 0)
              \<and> (rows \<noteq> [] \<longrightarrow> length rows < length CoffEntry)"
proof -
  from assms obtain T rows T' where
    "coff_loop h N PES CoffStrings CoffEntry 0 ([], T, Strings0) = Inr (rows, T', b')"
    and A: "Array = rows @ [if rows = [] then uninit else zero_entry]"
    by (auto simp: ConvertCoffs_array_def split: sum.splits)
  from coff_loop_rows [OF this(1)] A show ?thesis by auto
qed

text \<open>
  A table all of whose records are accepted makes the decoder clear a slot past the array:
  the array has room for \<open>Count\<close> entries (line 388) and the \<^verbatim>\<open>memset\<close> after the last row
  (line 447) writes entry \<open>Count\<close>. The table of the single external symbol \<^verbatim>\<open>_f@4\<close>:
\<close>

lemma ConvertCoffs_all_accepted_overflows:
  "coff_accepted std_rsym_h [example_coff ! 2] 0 = [example_coff ! 2]
   \<and> ConvertCoffs qsort std_rsym_h uninit [NUL] [example_coff ! 2] [] 1 example_sections
     = Inl OutOfBounds"
  by (simp add: ConvertCoffs_def ConvertCoffs_array_def StringHashTableInit_def coff_loop.simps
        coff_accepted.simps example_coff_def example_sections_def std_rsym_h_def
        coff_address_def coff_name_def e_zeroes_def le32_def demangle_def nth_opt_def
        cstr_at_def NUL_def FindOrAddString_def bucket_of_def ComputeDJBHash_def
        char_to_uint_def AddStringToHash_def Let_def)




text \<open>
  What the merger is handed: under the contract of \<open>qsort\<close> the rows of the STABS decoder
  are sorted by address, and the rows of the COFF decoder all have line 0 as soon as one
  record was accepted (with none, the single counted entry is uninitialised).
\<close>

lemma ConvertStabs_sorted:
  assumes "qsort_contract qsort"
    and "ConvertStabs qsort h Strings0 StabEntry StabStrings ImageBase = Inr (rows, b)"
  shows "sorted (map Address rows)"
proof -
  from assms(2) have "rows = [] \<or> (\<exists>xs. rows = qsort CompareSymEntry xs)"
    by (auto simp: ConvertStabs_def split: if_splits sum.splits)
  then show ?thesis
  proof
    assume "rows = []" then show ?thesis by simp
  next
    assume "\<exists>xs. rows = qsort CompareSymEntry xs"
    with qsort_contract_order [OF assms(1)] have "address_ascending rows" by blast
    then show ?thesis by (simp add: address_ascending_def sorted_wrt_map)
  qed
qed

lemma ConvertCoffs_lines:
  assumes "qsort_contract qsort"
    and "ConvertCoffs qsort h uninit Strings0 CoffEntry CoffStrings N PES = Inr (Symbols, b')"
    and "coff_accepted h CoffEntry 0 \<noteq> []"
  shows "\<forall>C \<in> set Symbols. SourceLine C = 0"
proof -
  from assms(2) obtain Array where
    arr: "ConvertCoffs_array h uninit Strings0 CoffEntry CoffStrings N PES = Inr (Array, b')"
    and S: "Symbols = qsort CompareSymEntry Array"
    by (auto simp: ConvertCoffs_def split: sum.splits)
  from ConvertCoffs_array_shape [OF arr] obtain rows where
    rows: "Array = rows @ [if rows = [] then uninit else zero_entry]"
      "length rows = length (coff_accepted h CoffEntry 0)"
      "\<forall>r \<in> set rows. FileOffset r = 0 \<and> SourceLine r = 0"
    by blast
  from rows(2) assms(3) have "rows \<noteq> []" by auto
  with rows have "\<forall>C \<in> set Array. SourceLine C = 0" by (auto simp: zero_entry_def)
  moreover from assms(1) S have "mset Symbols = mset Array" by (simp add: qsort_contract_def)
  then have "set Symbols = set Array" by (rule mset_eq_setD)
  ultimately show ?thesis by simp
qed


lemma example_coff_array:
  "ConvertCoffs_array std_rsym_h uninit [NUL] example_coff [] 1 example_sections
   = Inr ([\<lparr>Address = 0x1000, FileOffset = 0, FunctionOffset = 1, SourceLine = 0\<rparr>,
           \<lparr>Address = 0x1008, FileOffset = 0, FunctionOffset = 6, SourceLine = 0\<rparr>,
           zero_entry],
          NUL # ''main'' @ NUL # ''f'' @ [NUL])"
  by (simp add: ConvertCoffs_array_def StringHashTableInit_def coff_loop.simps example_coff_def
        example_sections_def std_rsym_h_def coff_address_def coff_name_def e_zeroes_def le32_def
        demangle_def nth_opt_def cstr_at_def NUL_def FindOrAddString_def bucket_of_def
        ComputeDJBHash_def char_to_uint_def AddStringToHash_def Let_def)

lemma example_coff_sorted:
  "ConvertCoffs insertion_qsort std_rsym_h uninit [NUL] example_coff [] 1 example_sections
   = Inr ([zero_entry,
           \<lparr>Address = 0x1000, FileOffset = 0, FunctionOffset = 1, SourceLine = 0\<rparr>,
           \<lparr>Address = 0x1008, FileOffset = 0, FunctionOffset = 6, SourceLine = 0\<rparr>],
          NUL # ''main'' @ NUL # ''f'' @ [NUL])"
  by (simp add: ConvertCoffs_def example_coff_array insertion_qsort_def CompareSymEntry_def
        zero_entry_def)



text \<open>
  C2, as the claim states it, fails. The image has no stab row and the COFF table above,
  with two external symbols at 0x1000 and 0x1008; the decoder yields their two rows, and
  the merger, given no stab row, returns the empty table.
\<close>

theorem coff_only_image_counterexample:
  "ConvertCoffs insertion_qsort std_rsym_h zero_entry [NUL] example_coff [] 1 example_sections
     = Inr ([zero_entry,
             \<lparr>Address = 0x1000, FileOffset = 0, FunctionOffset = 1, SourceLine = 0\<rparr>,
             \<lparr>Address = 0x1008, FileOffset = 0, FunctionOffset = 6, SourceLine = 0\<rparr>],
            NUL # ''main'' @ NUL # ''f'' @ [NUL])
   \<and> MergeStabsAndCoffs insertion_qsort []
        [zero_entry,
         \<lparr>Address = 0x1000, FileOffset = 0, FunctionOffset = 1, SourceLine = 0\<rparr>,
         \<lparr>Address = 0x1008, FileOffset = 0, FunctionOffset = 6, SourceLine = 0\<rparr>]
     = Inr []
   \<and> MergeStabsAndCoffs insertion_qsort []
        [zero_entry,
         \<lparr>Address = 0x1000, FileOffset = 0, FunctionOffset = 1, SourceLine = 0\<rparr>,
         \<lparr>Address = 0x1008, FileOffset = 0, FunctionOffset = 6, SourceLine = 0\<rparr>]
     \<noteq> Inr [\<lparr>Address = 0x1000, FileOffset = 0, FunctionOffset = 1, SourceLine = 0\<rparr>,
             \<lparr>Address = 0x1008, FileOffset = 0, FunctionOffset = 6, SourceLine = 0\<rparr>]"
  by (simp add: example_coff_sorted MergeStabsAndCoffs_def)

text \<open>
  The third scenario of the specification, through both decoders and the merger: the
  STABS of the second scenario and a COFF entry for the assembly function
  \<^verbatim>\<open>_asm_fn@4\<close> at 0x2000, its name in the COFF string table. The table has the STABS row
  and the row \<open>{0x2000, 0, off(asm_fn), 0}\<close>.
\<close>

lemma scenario_asm_function_coffs:
  "ConvertCoffs insertion_qsort std_rsym_h uninit (NUL # ''foo.c'' @ NUL # ''bar'' @ [NUL])
     [\<lparr>e_name = [NUL, NUL, NUL, NUL, CHR 0x04, NUL, NUL, NUL], e_value = 0x1000, e_scnum = 1,
       e_type = 0x20, e_sclass = 2, e_numaux = 0\<rparr>,
      \<lparr>e_name = ''.text'' @ [NUL, NUL, NUL], e_value = 0, e_scnum = 1, e_type = 0,
       e_sclass = 3, e_numaux = 0\<rparr>]
     ([CHR 0x0E, NUL, NUL, NUL] @ ''_asm_fn@4'' @ [NUL]) 1 example_sections
   = Inr ([zero_entry,
           \<lparr>Address = 0x2000, FileOffset = 0, FunctionOffset = 11, SourceLine = 0\<rparr>],
          NUL # ''foo.c'' @ NUL # ''bar'' @ NUL # ''asm_fn'' @ [NUL])"
  by (simp add: ConvertCoffs_def ConvertCoffs_array_def StringHashTableInit_def coff_loop.simps
        example_sections_def std_rsym_h_def coff_address_def coff_name_def e_zeroes_def
        e_offset_def le32_def demangle_def nth_opt_def cstr_at_def NUL_def FindOrAddString_def
        bucket_of_def ComputeDJBHash_def char_to_uint_def AddStringToHash_def Let_def
        insertion_qsort_def CompareSymEntry_def zero_entry_def)

lemma scenario_asm_function_merged:
  "MergeStabsAndCoffs insertion_qsort
     [\<lparr>Address = 0x1000, FileOffset = 1, FunctionOffset = 7, SourceLine = 10\<rparr>]
     [zero_entry, \<lparr>Address = 0x2000, FileOffset = 0, FunctionOffset = 11, SourceLine = 0\<rparr>]
   = Inr [\<lparr>Address = 0x1000, FileOffset = 1, FunctionOffset = 7, SourceLine = 10\<rparr>,
          \<lparr>Address = 0x2000, FileOffset = 0, FunctionOffset = 11, SourceLine = 0\<rparr>]"
  by (simp add: MergeStabsAndCoffs_def merge_loop.simps merge_step_def collapse_loop.simps
        coff_advance.simps coff_override_def nth_opt_def zero_entry_def insertion_qsort_def
        CompareSymEntry_def)

section \<open>The ELF short-circuit\<close>

text \<open>When the command line is accepted, the input path has been set.\<close>

lemma arg_step_path1:
  assumes "argstate a = 2 \<or> argstate a = 3 \<longrightarrow> path1 a \<noteq> None"
  shows "argstate (arg_step cp a arg) = 2 \<or> argstate (arg_step cp a arg) = 3
         \<longrightarrow> path1 (arg_step cp a arg) \<noteq> None"
  using assms by (auto simp: arg_step_def)

lemma foldl_arg_step_path1:
  assumes "argstate a = 2 \<or> argstate a = 3 \<longrightarrow> path1 a \<noteq> None"
  shows "argstate (foldl (arg_step cp) a argv) = 2 \<or> argstate (foldl (arg_step cp) a argv) = 3
         \<longrightarrow> path1 (foldl (arg_step cp) a argv) \<noteq> None"
  using assms
proof (induction argv arbitrary: a)
  case Nil
  then show ?case by simp
next
  case (Cons arg argv)
  from Cons.IH [OF arg_step_path1 [OF Cons.prems]] show ?case by simp
qed

lemma parse_args_path1:
  "argstate (parse_args cp argv) = 3 \<Longrightarrow> \<exists>input. path1 (parse_args cp argv) = Some input"
  using foldl_arg_step_path1
          [of "\<lparr>argstate = 0, path1 = None, path2 = None, SourcePath = None\<rparr>" cp argv]
  by (auto simp: parse_args_def)

lemma elf_not_pe:
  assumes "take 4 FileData = elfhdr"
  shows "not_pe FileData = Inr True \<and> \<not> length FileData < 4"
proof -
  have "length (take 4 FileData) = 4" using assms by (simp add: elfhdr_def)
  then have len: "4 \<le> length FileData" by simp
  have "FileData ! 0 = take 4 FileData ! 0" "FileData ! 1 = take 4 FileData ! 1"
    by simp_all
  with assms have "FileData ! 0 = CHR 0x7F" "FileData ! 1 = CHR ''E''"
    by (simp_all add: elfhdr_def)
  with len show ?thesis
    by (simp add: not_pe_def e_magic_def IMAGE_DOS_MAGIC_def)
qed

text \<open>
  C8. The command line is accepted and names an input file that can be loaded; the file
  begins with the four bytes \<open>7F 45 4C 46\<close>. Then the tool exits with status 0 and has
  not created the output file, whatever the rest of the pipeline would do.
\<close>

theorem elf_input_exits_0:
  assumes "argstate (parse_args convert_path argv) = 3"
    and "path1 (parse_args convert_path argv) = Some input"
    and "load_file input = Some FileData"
    and "take 4 FileData = elfhdr"
  shows "main convert_path load_file pipeline argv
         = Inr \<lparr>exit_status = 0, output_created = False\<rparr>"
  using assms elf_not_pe [OF assms(4)]
  by (simp add: main_def Let_def)

theorem elf_input_exits_0_witness:
  "argstate (parse_args (\<lambda>p. p) [''in.o'', ''out.exe'']) = 3
   \<and> path1 (parse_args (\<lambda>p. p) [''in.o'', ''out.exe'']) = Some ''in.o''
   \<and> take 4 (elfhdr @ [CHR 0x02, CHR 0x01]) = elfhdr
   \<and> main (\<lambda>p. p) (\<lambda>p. if p = ''in.o'' then Some (elfhdr @ [CHR 0x02, CHR 0x01]) else None)
        (\<lambda>a FileData. Inr \<lparr>exit_status = 1, output_created = True\<rparr>) [''in.o'', ''out.exe'']
     = Inr \<lparr>exit_status = 0, output_created = False\<rparr>"
proof -
  have a: "argstate (parse_args (\<lambda>p. p) [''in.o'', ''out.exe'']) = 3"
    "path1 (parse_args (\<lambda>p. p) [''in.o'', ''out.exe'']) = Some ''in.o''"
    by (simp_all add: parse_args_def arg_step_def)
  have l: "(\<lambda>p. if p = ''in.o'' then Some (elfhdr @ [CHR 0x02, CHR 0x01]) else None) ''in.o''
           = Some (elfhdr @ [CHR 0x02, CHR 0x01])"
    by simp
  have t: "take 4 (elfhdr @ [CHR 0x02, CHR 0x01]) = elfhdr"
    by (simp add: elfhdr_def)
  from elf_input_exits_0
         [where load_file = "\<lambda>p. if p = ''in.o'' then Some (elfhdr @ [CHR 0x02, CHR 0x01]) else None"
            and convert_path = "\<lambda>p. p" and argv = "[''in.o'', ''out.exe'']"
            and input = "''in.o''" and FileData = "elfhdr @ [CHR 0x02, CHR 0x01]",
          OF a l t] a t
  show ?thesis by simp
qed


end
